theory Spec2Isabelle
  imports Complex_Main "HOL-Library.Multiset"
begin

section \<open>Values, domains, bids and Python errors\<close>

text \<open>
  The three agents of the repository (adaptive learner, deadline pusher, strategic conceder)
  are embedded function by function. Python floats are read as real numbers with exact
  arithmetic; rounding error is outside this development. Every exception the embedded code
  can raise is a value of \<open>py_error\<close>, and a function that may raise returns
  \<open>py_error + 'a\<close> with \<open>Inl\<close> for the exception.
\<close>

datatype py_error = TypeError | ValueError | KeyError | ZeroDivisionError | IndexError | AttributeError

type_synonym issue = string

datatype val = DiscreteValue string | NumberValue real

text \<open>A value set of the domain: a list of discrete values, or a numeric range (low, high, step).\<close>

datatype value_set = DiscreteValueSet "val list" | NumberValueSet real real real

text \<open>\<open>domain.getIssuesValues().items()\<close>: the issues with their value sets, in dictionary order.\<close>

type_synonym domain = "(issue \<times> value_set) list"

text \<open>A bid maps issues to values; \<open>Bid.getValue\<close> answers \<open>None\<close> for an issue it does not hold.\<close>

type_synonym bid = "issue \<rightharpoonup> val"

definition getValue :: "bid \<Rightarrow> issue \<Rightarrow> val option" where
  "getValue b i = b i"

definition getIssues :: "domain \<Rightarrow> issue list" where
  "getIssues d = map fst d"

section \<open>Adaptive learner: the Bayesian issue estimator\<close>

text \<open>
  \<open>class BayesianIssueEstimator\<close> of
  \<open>group21_adaptive_learner_agent/utils/opponent_model.py\<close>. The field \<open>n\<close> of the class is
  \<open>est_n\<close> here. The keys of \<open>value_counts\<close> are whatever \<open>bid.getValue\<close> returned,
  so they are optional values.
\<close>

record BayesianIssueEstimator =
  value_set :: "val list"
  est_n :: nat
  value_counts :: "val option \<rightharpoonup> nat"
  total_count :: nat

definition BayesianIssueEstimator_init :: "value_set \<Rightarrow> py_error + BayesianIssueEstimator" where
  "BayesianIssueEstimator_init vs =
     (case vs of
        NumberValueSet lo hi st \<Rightarrow> Inl TypeError
      | DiscreteValueSet vals \<Rightarrow>
          Inr \<lparr>value_set = vals, est_n = length vals,
               value_counts = map_of (map (\<lambda>v. (Some v, 0)) vals), total_count = 0\<rparr>)"

text \<open>\<open>self.value_counts.get(value, 0)\<close>\<close>

definition get_count :: "BayesianIssueEstimator \<Rightarrow> val option \<Rightarrow> nat" where
  "get_count e v = (case value_counts e v of None \<Rightarrow> 0 | Some c \<Rightarrow> c)"

definition est_update :: "BayesianIssueEstimator \<Rightarrow> val option \<Rightarrow> BayesianIssueEstimator" where
  "est_update e v =
     e\<lparr>total_count := total_count e + 1,
       value_counts := (value_counts e)(v \<mapsto> get_count e v + 1)\<rparr>"

definition get_value_utility :: "BayesianIssueEstimator \<Rightarrow> val option \<Rightarrow> py_error + real" where
  "get_value_utility e v =
     (if total_count e + est_n e = 0 then Inl ZeroDivisionError
      else Inr (real (get_count e v + 1) / real (total_count e + est_n e)))"

text \<open>
  \<open>get_weight\<close>: the probabilities are computed first (a division by \<open>total_count + n\<close> for
  every value of the set), then the entropy, then \<open>math.log(self.n)\<close>, which raises
  \<open>ValueError\<close> at 0.
\<close>

definition probabilities :: "BayesianIssueEstimator \<Rightarrow> real list" where
  "probabilities e =
     map (\<lambda>v. real (get_count e (Some v) + 1) / real (total_count e + est_n e)) (value_set e)"

definition entropy :: "BayesianIssueEstimator \<Rightarrow> real" where
  "entropy e = - sum_list (map (\<lambda>p. p * ln p) (probabilities e))"

definition get_weight :: "BayesianIssueEstimator \<Rightarrow> py_error + real" where
  "get_weight e =
     (if value_set e \<noteq> [] \<and> total_count e + est_n e = 0 then Inl ZeroDivisionError
      else if est_n e = 0 then Inl ValueError
      else let max_entropy = ln (real (est_n e));
               normalized_entropy = (if max_entropy > 0 then entropy e / max_entropy else 0)
           in Inr (1 - normalized_entropy))"

section \<open>Adaptive learner: the opponent model (Frequency-Bayesian)\<close>

record fb_OpponentModel =
  fb_offers :: "bid list"
  fb_domain :: domain
  fb_issue_estimators :: "(issue \<times> BayesianIssueEstimator) list"

text \<open>The dictionary comprehension of \<open>__init__\<close>: the first estimator that raises ends it.\<close>

fun fb_build_estimators :: "domain \<Rightarrow> py_error + (issue \<times> BayesianIssueEstimator) list" where
  "fb_build_estimators [] = Inr []"
| "fb_build_estimators ((i, vs) # rest) =
     (case BayesianIssueEstimator_init vs of
        Inl err \<Rightarrow> Inl err
      | Inr e \<Rightarrow> (case fb_build_estimators rest of
                    Inl err \<Rightarrow> Inl err
                  | Inr es \<Rightarrow> Inr ((i, e) # es)))"

definition fb_OpponentModel_init :: "domain \<Rightarrow> py_error + fb_OpponentModel" where
  "fb_OpponentModel_init d =
     (case fb_build_estimators d of
        Inl err \<Rightarrow> Inl err
      | Inr es \<Rightarrow> Inr \<lparr>fb_offers = [], fb_domain = d, fb_issue_estimators = es\<rparr>)"

definition fb_update :: "fb_OpponentModel \<Rightarrow> bid \<Rightarrow> fb_OpponentModel" where
  "fb_update m b =
     m\<lparr>fb_offers := fb_offers m @ [b],
       fb_issue_estimators :=
         map (\<lambda>(i, e). (i, est_update e (getValue b i))) (fb_issue_estimators m)\<rparr>"

text \<open>
  The loop of \<open>get_predicted_utility\<close>, with its two accumulators. The quotient the method
  returns is not clamped. In exact arithmetic it lies between 0 and 1; with rounded weights
  the code can leave that range, which real numbers do not show, so no claim below rests on
  the range of this result.
\<close>

fun fb_predict_loop ::
  "(issue \<times> BayesianIssueEstimator) list \<Rightarrow> bid \<Rightarrow> real \<Rightarrow> real \<Rightarrow> py_error + (real \<times> real)" where
  "fb_predict_loop [] b predicted_utility total_weight = Inr (predicted_utility, total_weight)"
| "fb_predict_loop ((i, e) # rest) b predicted_utility total_weight =
     (case get_weight e of
        Inl err \<Rightarrow> Inl err
      | Inr weight \<Rightarrow>
          (case get_value_utility e (getValue b i) of
             Inl err \<Rightarrow> Inl err
           | Inr value_util \<Rightarrow>
               fb_predict_loop rest b (predicted_utility + weight * value_util)
                 (total_weight + weight)))"

definition fb_get_predicted_utility :: "fb_OpponentModel \<Rightarrow> bid option \<Rightarrow> py_error + real" where
  "fb_get_predicted_utility m bid =
     (case bid of
        None \<Rightarrow> Inr 0
      | Some b \<Rightarrow>
          if length (fb_offers m) = 0 then Inr 0
          else (case fb_predict_loop (fb_issue_estimators m) b 0 0 of
                  Inl err \<Rightarrow> Inl err
                | Inr (predicted_utility, total_weight) \<Rightarrow>
                    if total_weight > 0 then Inr (predicted_utility / total_weight)
                    else Inr 0))"

text \<open>\<open>self.issue_estimators[i].get_weight()\<close>, as a caller reads the weight of one issue.\<close>

definition fb_issue_weight :: "fb_OpponentModel \<Rightarrow> issue \<Rightarrow> py_error + real" where
  "fb_issue_weight m i =
     (case map_of (fb_issue_estimators m) i of None \<Rightarrow> Inl KeyError | Some e \<Rightarrow> get_weight e)"

section \<open>Adaptive learner: the agent\<close>

datatype action = Offer bid | Accept bid | EndNegotiation

text \<open>
  The fields of \<open>Group21AdaptiveLearnerAgent\<close> that the negotiation logic reads and writes.
  \<open>al_init d\<close> is the agent after \<open>__init__\<close> and the \<open>Settings\<close> message for a profile
  over the domain \<open>d\<close>.
\<close>

record Group21AdaptiveLearnerAgent =
  al_domain :: domain
  al_last_received_bid :: "bid option"
  al_opponent_model :: "fb_OpponentModel option"
  al_initial_opponent_utility :: "real option"
  al_initial_alpha :: real
  al_final_alpha :: real
  al_eps :: real
  al_reservation_value :: real

definition al_init :: "domain \<Rightarrow> Group21AdaptiveLearnerAgent" where
  "al_init d =
     \<lparr>al_domain = d, al_last_received_bid = None, al_opponent_model = None,
      al_initial_opponent_utility = None, al_initial_alpha = 1.0, al_final_alpha = 0.5,
      al_eps = 0.1, al_reservation_value = 0.65\<rparr>"

definition al_opponent_action ::
  "Group21AdaptiveLearnerAgent \<Rightarrow> action \<Rightarrow> py_error + Group21AdaptiveLearnerAgent" where
  "al_opponent_action s a =
     (case a of
        Offer bid \<Rightarrow>
          (case (case al_opponent_model s of
                   None \<Rightarrow> fb_OpponentModel_init (al_domain s)
                 | Some m \<Rightarrow> Inr m) of
             Inl err \<Rightarrow> Inl err
           | Inr m \<Rightarrow>
               let m' = fb_update m bid in
               (case al_initial_opponent_utility s of
                  None \<Rightarrow>
                    (case fb_get_predicted_utility m' (Some bid) of
                       Inl err \<Rightarrow> Inl err
                     | Inr u \<Rightarrow>
                         Inr (s\<lparr>al_opponent_model := Some m',
                                 al_initial_opponent_utility := Some u,
                                 al_last_received_bid := Some bid\<rparr>))
                | Some u0 \<Rightarrow>
                    Inr (s\<lparr>al_opponent_model := Some m', al_last_received_bid := Some bid\<rparr>)))
      | Accept bid \<Rightarrow> Inr s
      | EndNegotiation \<Rightarrow> Inr s)"

text \<open>The opponent's actions of a session, one \<open>ActionDone\<close> after the other.\<close>

fun al_run :: "Group21AdaptiveLearnerAgent \<Rightarrow> action list \<Rightarrow> py_error + Group21AdaptiveLearnerAgent" where
  "al_run s [] = Inr s"
| "al_run s (a # as) =
     (case al_opponent_action s a of Inl err \<Rightarrow> Inl err | Inr s' \<Rightarrow> al_run s' as)"

definition compute_acceptance_threshold :: "Group21AdaptiveLearnerAgent \<Rightarrow> real \<Rightarrow> py_error + real" where
  "compute_acceptance_threshold s progress =
     (let initial_threshold = 0.95;
          final_threshold = 0.70;
          base_threshold = initial_threshold - (initial_threshold - final_threshold) * progress
      in case (al_initial_opponent_utility s, al_last_received_bid s) of
           (Some u0, Some b) \<Rightarrow>
             (case al_opponent_model s of
                None \<Rightarrow> Inl AttributeError
              | Some m \<Rightarrow>
                  (case fb_get_predicted_utility m (Some b) of
                     Inl err \<Rightarrow> Inl err
                   | Inr current_opp_util \<Rightarrow>
                       if u0 = 0 then Inl ZeroDivisionError
                       else let concession = (u0 - current_opp_util) / u0;
                                concession = max 0 (min concession 1);
                                behavior_adjustment = concession * 0.10
                            in Inr (max (base_threshold - behavior_adjustment)
                                     (al_reservation_value s))))
         | _ \<Rightarrow> Inr (max base_threshold (al_reservation_value s)))"

text \<open>\<open>profile\<close> is \<open>self.profile.getUtility\<close>, \<open>progress\<close> the value of \<open>self.progress.get\<close>.\<close>

definition al_accept_condition ::
  "Group21AdaptiveLearnerAgent \<Rightarrow> (bid \<Rightarrow> real) \<Rightarrow> real \<Rightarrow> bid option \<Rightarrow> py_error + bool" where
  "al_accept_condition s profile progress bid =
     (case bid of
        None \<Rightarrow> Inr False
      | Some b \<Rightarrow>
          (case compute_acceptance_threshold s progress of
             Inl err \<Rightarrow> Inl err
           | Inr threshold \<Rightarrow> Inr (profile b \<ge> threshold)))"

definition score_bid ::
  "Group21AdaptiveLearnerAgent \<Rightarrow> (bid \<Rightarrow> real) \<Rightarrow> real \<Rightarrow> bid \<Rightarrow> py_error + real" where
  "score_bid s profile progress bid =
     (let our_util = profile bid;
          alpha = al_initial_alpha s - (al_initial_alpha s - al_final_alpha s) * progress;
          time_pressure = 1.0 - progress powr (1 / (al_eps s + 1 / 10 ^ 6));
          score = alpha * time_pressure * our_util
      in case al_opponent_model s of
           None \<Rightarrow> Inr score
         | Some m \<Rightarrow>
             (case fb_get_predicted_utility m (Some bid) of
                Inl err \<Rightarrow> Inl err
              | Inr opponent_util \<Rightarrow>
                  (case al_initial_opponent_utility s of
                     None \<Rightarrow> Inr (score + (1.0 - alpha * time_pressure) * 0.5 * opponent_util)
                   | Some u0 \<Rightarrow>
                       if u0 = 0 then Inl ZeroDivisionError
                       else let concession = (u0 - opponent_util) / u0;
                                concession = max 0 (min concession 1);
                                behavior_weight = 0.5 + concession * 0.5
                            in Inr (score + (1.0 - alpha * time_pressure) * behavior_weight
                                      * opponent_util))))"

section \<open>Strategic conceder: the opponent model (Density-Estimation)\<close>

text \<open>
  \<open>class OpponentModel\<close> of \<open>group21_strategic_conceder_agent/utils/opponent_model.py\<close>.
  One \<open>issue_info\<close> entry per discrete issue; the fitted \<open>kde\<close> object is not part of the
  embedding. The constructor skips an issue whose value set is not discrete. The values of a
  discrete value set are pairwise different, so the index maps hold one entry per value.
  Nothing in the loop of \<open>get_predicted_utility\<close> raises, so its \<open>except\<close> branch (log the
  error, return 0.0) has no counterpart here.
\<close>

record kde_issue_info =
  info_values :: "val list"
  info_value_map :: "val \<rightharpoonup> nat"
  info_inverse_value_map :: "nat \<rightharpoonup> val"
  info_offered_values_numeric :: "nat list"
  info_weight :: real
  info_value_utilities :: "val \<rightharpoonup> real"
  info_num_possible_values :: nat

record kde_OpponentModel =
  kde_offers :: "bid list"
  kde_domain :: domain
  kde_issue_info :: "(issue \<times> kde_issue_info) list"

definition isDiscrete :: "value_set \<Rightarrow> bool" where
  "isDiscrete vs = (case vs of DiscreteValueSet vals \<Rightarrow> True | NumberValueSet lo hi st \<Rightarrow> False)"

fun kde_build_info :: "domain \<Rightarrow> domain \<Rightarrow> (issue \<times> kde_issue_info) list" where
  "kde_build_info d [] = []"
| "kde_build_info d ((issue_name, vs) # rest) =
     (case vs of
        NumberValueSet lo hi st \<Rightarrow> kde_build_info d rest
      | DiscreteValueSet vals \<Rightarrow>
          (issue_name,
           \<lparr>info_values = vals,
            info_value_map = map_of (zip vals [0..<length vals]),
            info_inverse_value_map = map_of (zip [0..<length vals] vals),
            info_offered_values_numeric = [],
            info_weight = 1.0 / real (length (getIssues d)),
            info_value_utilities = Map.empty,
            info_num_possible_values = length vals\<rparr>) # kde_build_info d rest)"

definition kde_OpponentModel_init :: "domain \<Rightarrow> py_error + kde_OpponentModel" where
  "kde_OpponentModel_init d =
     Inr \<lparr>kde_offers = [], kde_domain = d, kde_issue_info = kde_build_info d d\<rparr>"

definition MIN_SAMPLES_FOR_KDE :: nat where
  "MIN_SAMPLES_FOR_KDE = 5"

text \<open>
  \<open>update\<close>. The refit \<open>_recalculate_weights_and_utilities\<close> calls \<open>scipy\<close>'s Gaussian kernel
  density estimate and draws random jitter; it is the parameter \<open>recalculate\<close> here.
\<close>

definition kde_update ::
  "(kde_OpponentModel \<Rightarrow> kde_OpponentModel) \<Rightarrow> kde_OpponentModel \<Rightarrow> bid \<Rightarrow> kde_OpponentModel" where
  "kde_update recalculate m b =
     (let m' = m\<lparr>kde_offers := kde_offers m @ [b],
                  kde_issue_info :=
                    map (\<lambda>(issue_name, info).
                           (issue_name,
                            case getValue b issue_name of
                              None \<Rightarrow> info
                            | Some v \<Rightarrow>
                                (case info_value_map info v of
                                   None \<Rightarrow> info
                                 | Some numeric_value \<Rightarrow>
                                     info\<lparr>info_offered_values_numeric :=
                                       info_offered_values_numeric info @ [numeric_value]\<rparr>)))
                      (kde_issue_info m)\<rparr>
      in if length (kde_offers m') \<ge> MIN_SAMPLES_FOR_KDE then recalculate m' else m')"

fun kde_predict_loop :: "(issue \<times> kde_issue_info) list \<Rightarrow> bid \<Rightarrow> real \<Rightarrow> real" where
  "kde_predict_loop [] b predicted_utility = predicted_utility"
| "kde_predict_loop ((issue_name, info) # rest) b predicted_utility =
     (case getValue b issue_name of
        None \<Rightarrow> kde_predict_loop rest b predicted_utility
      | Some v \<Rightarrow>
          let weight = info_weight info;
              value_utility = (case info_value_utilities info v of None \<Rightarrow> 0 | Some u \<Rightarrow> u)
          in kde_predict_loop rest b (predicted_utility + weight * value_utility))"

definition kde_get_predicted_utility :: "kde_OpponentModel \<Rightarrow> bid option \<Rightarrow> real" where
  "kde_get_predicted_utility m bid =
     (case bid of
        None \<Rightarrow> 0
      | Some b \<Rightarrow>
          if kde_offers m = [] then 0
          else max 0 (min 1 (kde_predict_loop (kde_issue_info m) b 0)))"

section \<open>Strategic conceder: target utility and acceptance\<close>

record Group21StrategicConcederAgent =
  sc_last_received_bid :: "bid option"
  sc_reservation_value :: real
  sc_max_utility :: real
  sc_target_utility :: real
  sc_bid_search_attempts :: nat
  sc_min_bids_for_opponent_model :: nat
  sc_last_utility :: real
  sc_next_bid_difference_margin :: real

definition sc_init :: Group21StrategicConcederAgent where
  "sc_init =
     \<lparr>sc_last_received_bid = None, sc_reservation_value = 0, sc_max_utility = 1.0,
      sc_target_utility = 1.0, sc_bid_search_attempts = 1000,
      sc_min_bids_for_opponent_model = 5, sc_last_utility = 1.0,
      sc_next_bid_difference_margin = 0.05\<rparr>"

text \<open>
  The \<open>Settings\<close> message: the reservation value is the own utility of the profile's reservation
  bid, or 0 when the profile has none. \<open>res_utility\<close> is that utility, if any.
\<close>

definition sc_settings :: "real option \<Rightarrow> Group21StrategicConcederAgent \<Rightarrow> Group21StrategicConcederAgent" where
  "sc_settings res_utility s =
     (case res_utility of
        Some u \<Rightarrow> s\<lparr>sc_reservation_value := u\<rparr>
      | None \<Rightarrow> s\<lparr>sc_reservation_value := 0\<rparr>)"

definition update_target_utility :: "Group21StrategicConcederAgent \<Rightarrow> Group21StrategicConcederAgent" where
  "update_target_utility s =
     (let s1 = s\<lparr>sc_target_utility := sc_target_utility s - 0.0005\<rparr>
      in s1\<lparr>sc_target_utility := max (sc_reservation_value s1) (sc_target_utility s1)\<rparr>)"

text \<open>The target utility after \<open>k\<close> turns (\<open>YourTurn\<close> messages).\<close>

definition target_after :: "nat \<Rightarrow> Group21StrategicConcederAgent \<Rightarrow> real" where
  "target_after k s = sc_target_utility ((update_target_utility ^^ k) s)"

definition sc_accept_condition ::
  "Group21StrategicConcederAgent \<Rightarrow> (bid \<Rightarrow> real) \<Rightarrow> bid option \<Rightarrow> bid \<Rightarrow> bool" where
  "sc_accept_condition s profile received_bid next_bid_to_offer =
     (case received_bid of
        None \<Rightarrow> False
      | Some rb \<Rightarrow>
          let received_utility = profile rb;
              next_offer_utility = profile next_bid_to_offer;
              above_reservation = (received_utility \<ge> sc_reservation_value s);
              meets_ac_next = (received_utility \<ge> next_offer_utility)
          in above_reservation \<and> meets_ac_next)"

section \<open>Deadline pusher: the opponent model (Rank-Distance)\<close>

text \<open>
  \<open>class IssueEstimator\<close> and \<open>class OpponentModel\<close> of
  \<open>group21_deadline_pusher_agent/utils/opponent_model.py\<close>. The class defines \<open>update\<close>,
  \<open>getWeight\<close> and \<open>get_average_value_distances\<close>, and nothing else.
\<close>

record IssueEstimator =
  bids_received :: nat
  weight :: real
  avd_to_weight :: "(nat \<times> real) list"

definition IssueEstimator_init :: "value_set \<Rightarrow> py_error + IssueEstimator" where
  "IssueEstimator_init vs =
     (case vs of
        NumberValueSet lo hi st \<Rightarrow> Inl TypeError
      | DiscreteValueSet vals \<Rightarrow>
          Inr \<lparr>bids_received = 0, weight = 0,
               avd_to_weight = [(0, 6), (1, 4), (2, 3), (3, 1), (4, 0.5)]\<rparr>)"

definition IssueEstimator_update :: "IssueEstimator \<Rightarrow> nat \<Rightarrow> py_error + IssueEstimator" where
  "IssueEstimator_update e avd =
     (case map_of (avd_to_weight e) avd of
        None \<Rightarrow> Inl KeyError
      | Some w \<Rightarrow> Inr (e\<lparr>bids_received := bids_received e + 1, weight := w\<rparr>))"

record rd_OpponentModel =
  rd_offers :: "bid list"
  rd_domain :: domain
  rd_issue_estimators :: "(issue \<times> IssueEstimator) list"

fun rd_build_estimators :: "domain \<Rightarrow> py_error + (issue \<times> IssueEstimator) list" where
  "rd_build_estimators [] = Inr []"
| "rd_build_estimators ((i, vs) # rest) =
     (case IssueEstimator_init vs of
        Inl err \<Rightarrow> Inl err
      | Inr e \<Rightarrow> (case rd_build_estimators rest of
                    Inl err \<Rightarrow> Inl err
                  | Inr es \<Rightarrow> Inr ((i, e) # es)))"

definition rd_OpponentModel_init :: "domain \<Rightarrow> py_error + rd_OpponentModel" where
  "rd_OpponentModel_init d =
     (case rd_build_estimators d of
        Inl err \<Rightarrow> Inl err
      | Inr es \<Rightarrow> Inr \<lparr>rd_offers = [], rd_domain = d, rd_issue_estimators = es\<rparr>)"

text \<open>\<open>list.index\<close>: the first position of the element, \<open>ValueError\<close> when it is absent.\<close>

fun py_list_index :: "'a list \<Rightarrow> 'a \<Rightarrow> py_error + nat" where
  "py_list_index [] x = Inl ValueError"
| "py_list_index (y # ys) x =
     (if y = x then Inr 0
      else (case py_list_index ys x of Inl err \<Rightarrow> Inl err | Inr k \<Rightarrow> Inr (Suc k)))"

text \<open>
  The loop body of \<open>get_average_value_distances\<close> for one issue. A bid without the issue gives
  \<open>None\<close>, which no value list holds.
\<close>

definition value_distance :: "val list \<Rightarrow> val option \<Rightarrow> val option \<Rightarrow> py_error + nat" where
  "value_distance vals value1 value2 =
     (case (case value1 of None \<Rightarrow> Inl ValueError | Some v1 \<Rightarrow> py_list_index vals v1) of
        Inl err \<Rightarrow> Inl err
      | Inr ind1 \<Rightarrow>
          (case (case value2 of None \<Rightarrow> Inl ValueError | Some v2 \<Rightarrow> py_list_index vals v2) of
             Inl err \<Rightarrow> Inl err
           | Inr ind2 \<Rightarrow> Inr (min (nat \<bar>int ind1 - int ind2\<bar>) 4)))"

fun distances_loop :: "domain \<Rightarrow> bid \<Rightarrow> bid \<Rightarrow> py_error + (issue \<times> nat) list" where
  "distances_loop [] bid1 bid2 = Inr []"
| "distances_loop ((i, vs) # rest) bid1 bid2 =
     (case vs of
        NumberValueSet lo hi st \<Rightarrow> Inl AttributeError
      | DiscreteValueSet vals \<Rightarrow>
          (case value_distance vals (getValue bid1 i) (getValue bid2 i) of
             Inl err \<Rightarrow> Inl err
           | Inr avd \<Rightarrow>
               (case distances_loop rest bid1 bid2 of
                  Inl err \<Rightarrow> Inl err
                | Inr ds \<Rightarrow> Inr ((i, avd) # ds))))"

definition get_average_value_distances :: "rd_OpponentModel \<Rightarrow> py_error + (issue \<times> nat) list" where
  "get_average_value_distances m =
     (if length (rd_offers m) < 2 then Inr []
      else distances_loop (rd_domain m) (last (butlast (rd_offers m))) (last (rd_offers m)))"

fun rd_update_estimators ::
  "(issue \<times> IssueEstimator) list \<Rightarrow> (issue \<times> nat) list \<Rightarrow> py_error + (issue \<times> IssueEstimator) list" where
  "rd_update_estimators [] avds = Inr []"
| "rd_update_estimators ((i, e) # rest) avds =
     (case IssueEstimator_update e (case map_of avds i of None \<Rightarrow> 3 | Some a \<Rightarrow> a) of
        Inl err \<Rightarrow> Inl err
      | Inr e' \<Rightarrow> (case rd_update_estimators rest avds of
                     Inl err \<Rightarrow> Inl err
                   | Inr es \<Rightarrow> Inr ((i, e') # es)))"

definition rd_update :: "rd_OpponentModel \<Rightarrow> bid \<Rightarrow> py_error + rd_OpponentModel" where
  "rd_update m b =
     (let m' = m\<lparr>rd_offers := rd_offers m @ [b]\<rparr>
      in case get_average_value_distances m' of
           Inl err \<Rightarrow> Inl err
         | Inr avds \<Rightarrow>
             (case rd_update_estimators (rd_issue_estimators m') avds of
                Inl err \<Rightarrow> Inl err
              | Inr es \<Rightarrow> Inr (m'\<lparr>rd_issue_estimators := es\<rparr>)))"

definition getWeight :: "rd_OpponentModel \<Rightarrow> issue \<Rightarrow> real" where
  "getWeight m i =
     (case map_of (rd_issue_estimators m) i of
        None \<Rightarrow> 0
      | Some e \<Rightarrow>
          let total_issue_weight = sum_list (map (\<lambda>(j, e'). weight e') (rd_issue_estimators m))
          in if total_issue_weight = 0 then 1 / real (length (rd_issue_estimators m))
             else weight e / total_issue_weight)"

section \<open>The three opponent models behind one call\<close>

text \<open>
  Each agent holds one of the three models in \<open>self.opponent_model\<close> and calls its methods by
  name. A call of \<open>get_predicted_utility\<close> on the deadline pusher's model finds no such
  attribute: Python raises \<open>AttributeError\<close>.
\<close>

datatype opponent_model =
    FrequencyBayesian fb_OpponentModel
  | RankDistance rd_OpponentModel
  | DensityEstimation kde_OpponentModel

definition get_predicted_utility :: "opponent_model \<Rightarrow> bid option \<Rightarrow> py_error + real" where
  "get_predicted_utility om bid =
     (case om of
        FrequencyBayesian m \<Rightarrow> fb_get_predicted_utility m bid
      | RankDistance m \<Rightarrow> Inl AttributeError
      | DensityEstimation m \<Rightarrow> Inr (kde_get_predicted_utility m bid))"

definition offers :: "opponent_model \<Rightarrow> bid list" where
  "offers om =
     (case om of
        FrequencyBayesian m \<Rightarrow> fb_offers m
      | RankDistance m \<Rightarrow> rd_offers m
      | DensityEstimation m \<Rightarrow> kde_offers m)"

section \<open>Deadline pusher: the concession curve and the time-dependent bid\<close>

record DeadlinePusher =
  dp_last_received_bid :: "bid option"
  dp_time_cutoff :: real
  dp_kappa :: real
  dp_beta :: real
  dp_negotiation_speed :: real
  dp_minimal_utility :: real
  dp_tau_gen :: real

definition dp_init :: DeadlinePusher where
  "dp_init =
     \<lparr>dp_last_received_bid = None, dp_time_cutoff = 0.95, dp_kappa = 0.1, dp_beta = 0.2,
      dp_negotiation_speed = 0.05, dp_minimal_utility = 0.8, dp_tau_gen = 0.1\<rparr>"

definition dp_accept_condition :: "DeadlinePusher \<Rightarrow> real \<Rightarrow> bid option \<Rightarrow> bool" where
  "dp_accept_condition s t bid = (case bid of None \<Rightarrow> False | Some b \<Rightarrow> t > dp_time_cutoff s)"

text \<open>
  \<open>t ** (1 / self.beta)\<close> on floats is \<open>powr\<close> for \<open>t \<ge> 0\<close>, where the progress of a session
  lies.
\<close>

definition compute_alpha :: "DeadlinePusher \<Rightarrow> real \<Rightarrow> real" where
  "compute_alpha s t = dp_kappa s + (1 - dp_kappa s) * (t powr (1 / dp_beta s))"

text \<open>The utilities of one issue, as \<open>self.profile.getUtilities()\<close> holds them.\<close>

datatype value_set_utilities =
    NumberValueSetUtilities real real real real
  | DiscreteValueSetUtilities "(val \<times> real) list"

text \<open>\<open>int(x)\<close> on a float truncates toward zero.\<close>

definition py_int :: "real \<Rightarrow> int" where
  "py_int x = (if x \<ge> 0 then \<lfloor>x\<rfloor> else \<lceil>x\<rceil>)"

text \<open>\<open>xs[i]\<close>: a negative index counts from the end, an index out of range raises.\<close>

definition py_getitem :: "'a list \<Rightarrow> int \<Rightarrow> py_error + 'a" where
  "py_getitem xs i =
     (let len = int (length xs); j = (if i < 0 then len + i else i)
      in if 0 \<le> j \<and> j < len then Inr (xs ! nat j) else Inl IndexError)"

text \<open>
  \<open>values_with_utils.sort(key=lambda x: x[1], reverse=True)\<close>: a stable sort, utilities
  descending.
\<close>

definition sort_by_utility_desc :: "(val \<times> real) list \<Rightarrow> (val \<times> real) list" where
  "sort_by_utility_desc values_with_utils = sort_key (\<lambda>x. - snd x) values_with_utils"

text \<open>The body of the first loop of \<open>find_bid\<close> for one issue.\<close>

definition time_value :: "DeadlinePusher \<Rightarrow> real \<Rightarrow> value_set_utilities \<Rightarrow> py_error + val" where
  "time_value s t utility =
     (case utility of
        NumberValueSetUtilities min_value max_value low_utility high_utility \<Rightarrow>
          if low_utility < high_utility
          then Inr (NumberValue (min_value + (1 - compute_alpha s t) * (max_value - min_value)))
          else Inr (NumberValue (min_value + compute_alpha s t * (max_value - min_value)))
      | DiscreteValueSetUtilities utils \<Rightarrow>
          let values_with_utils = sort_by_utility_desc utils;
              ind = py_int (compute_alpha s t * (real (length values_with_utils) - 1))
          in (case py_getitem values_with_utils ind of
                Inl err \<Rightarrow> Inl err
              | Inr item \<Rightarrow> Inr (fst item)))"

fun time_bid_loop ::
  "DeadlinePusher \<Rightarrow> real \<Rightarrow> (issue \<times> value_set_utilities) list \<Rightarrow> py_error + (issue \<times> val) list" where
  "time_bid_loop s t [] = Inr []"
| "time_bid_loop s t ((i, utility) # rest) =
     (case time_value s t utility of
        Inl err \<Rightarrow> Inl err
      | Inr v \<Rightarrow> (case time_bid_loop s t rest of
                    Inl err \<Rightarrow> Inl err
                  | Inr vs \<Rightarrow> Inr ((i, v) # vs)))"

definition time_bid ::
  "DeadlinePusher \<Rightarrow> real \<Rightarrow> (issue \<times> value_set_utilities) list \<Rightarrow> py_error + bid" where
  "time_bid s t utilities =
     (case time_bid_loop s t utilities of Inl err \<Rightarrow> Inl err | Inr kvs \<Rightarrow> Inr (map_of kvs))"

section \<open>Well-formed domains and bids\<close>

text \<open>
  The data model the agents are given: a domain has at least one issue, every issue once; a
  discrete value set is a non-empty list without repetition; a bid maps every issue of the
  domain to a value of that issue's value set.
\<close>

definition valid_value_set :: "value_set \<Rightarrow> bool" where
  "valid_value_set vs =
     (case vs of
        DiscreteValueSet vals \<Rightarrow> vals \<noteq> [] \<and> distinct vals
      | NumberValueSet lo hi st \<Rightarrow> lo \<le> hi)"

definition valid_domain :: "domain \<Rightarrow> bool" where
  "valid_domain d \<longleftrightarrow> d \<noteq> [] \<and> distinct (map fst d) \<and> list_all (\<lambda>(i, vs). valid_value_set vs) d"

definition discrete_domain :: "domain \<Rightarrow> bool" where
  "discrete_domain d = list_all (\<lambda>(i, vs). isDiscrete vs) d"

definition value_in :: "value_set \<Rightarrow> val option \<Rightarrow> bool" where
  "value_in vs v =
     (case v of
        None \<Rightarrow> False
      | Some x \<Rightarrow>
          (case vs of
             DiscreteValueSet vals \<Rightarrow> x \<in> set vals
           | NumberValueSet lo hi st \<Rightarrow>
               (case x of NumberValue r \<Rightarrow> lo \<le> r \<and> r \<le> hi | DiscreteValue n \<Rightarrow> False)))"

definition valid_bid :: "domain \<Rightarrow> bid \<Rightarrow> bool" where
  "valid_bid d b = list_all (\<lambda>(i, vs). value_in vs (getValue b i)) d"

definition valid_action :: "domain \<Rightarrow> action \<Rightarrow> bool" where
  "valid_action d a = (case a of Offer b \<Rightarrow> valid_bid d b | Accept b \<Rightarrow> True | EndNegotiation \<Rightarrow> True)"

definition is_offer :: "action \<Rightarrow> bool" where
  "is_offer a = (case a of Offer b \<Rightarrow> True | Accept b \<Rightarrow> False | EndNegotiation \<Rightarrow> False)"

text \<open>
  The state of an estimator that has seen values of its own value set only: the counts of the
  values add up to the number of observations.
\<close>

definition est_ok :: "BayesianIssueEstimator \<Rightarrow> bool" where
  "est_ok e \<longleftrightarrow> value_set e \<noteq> [] \<and> est_n e = length (value_set e) \<and>
     sum_list (map (\<lambda>v. get_count e (Some v)) (value_set e)) = total_count e"

text \<open>
  The same for a whole model over the domain \<open>d\<close>: every estimator belongs to an issue of \<open>d\<close>,
  holds that issue's values and has seen only them.
\<close>

definition fb_inv :: "domain \<Rightarrow> (issue \<times> BayesianIssueEstimator) list \<Rightarrow> bool" where
  "fb_inv d es \<longleftrightarrow>
     (\<forall>(i, e) \<in> set es.
        (i, DiscreteValueSet (value_set e)) \<in> set d \<and> distinct (value_set e) \<and> est_ok e)"

text \<open>
  The states of the adaptive learner in a session over \<open>d\<close>: before the first offer nothing is
  set; from the first offer on, the model, the initial opponent utility and the last received
  bid are all set.
\<close>

definition al_inv :: "domain \<Rightarrow> Group21AdaptiveLearnerAgent \<Rightarrow> bool" where
  "al_inv d s \<longleftrightarrow>
     al_domain s = d \<and>
     (case al_opponent_model s of
        None \<Rightarrow> al_initial_opponent_utility s = None \<and> al_last_received_bid s = None
      | Some m \<Rightarrow>
          fb_inv d (fb_issue_estimators m) \<and> fb_offers m \<noteq> [] \<and>
          (\<exists>u. al_initial_opponent_utility s = Some u \<and> 0 < u) \<and>
          (\<exists>b. al_last_received_bid s = Some b \<and> valid_bid d b))"

section \<open>The specification's formulas\<close>

text \<open>
  The Frequency-Bayesian estimates as the specification words them: the smoothed frequency
  \<open>(count(v) + 1) / (totalObservations + numPossibleValues)\<close>, and the issue weight
  \<open>1 - normalizedEntropy\<close>, the Shannon entropy of the smoothed distribution over
  \<open>ln(numPossibleValues)\<close>, 0 for a single possible value.
\<close>

definition spec_value_utility :: "nat \<Rightarrow> nat \<Rightarrow> nat \<Rightarrow> real" where
  "spec_value_utility count_v totalObservations numPossibleValues =
     (real count_v + 1) / (real totalObservations + real numPossibleValues)"

definition spec_shannon_entropy :: "val set \<Rightarrow> (val \<Rightarrow> real) \<Rightarrow> real" where
  "spec_shannon_entropy V p = - (\<Sum>v\<in>V. p v * ln (p v))"

definition spec_normalized_entropy :: "val set \<Rightarrow> (val \<Rightarrow> real) \<Rightarrow> real" where
  "spec_normalized_entropy V p =
     (if card V = 1 then 0 else spec_shannon_entropy V p / ln (real (card V)))"

definition spec_issue_weight :: "val set \<Rightarrow> (val \<Rightarrow> real) \<Rightarrow> real" where
  "spec_issue_weight V p = 1 - spec_normalized_entropy V p"

text \<open>
  The position the specification gives for a discrete issue: \<open>round(\<alpha>(t) \<sqdot> (count - 1))\<close>.
  \<open>round\<close> rounds a half up, Python's \<open>round\<close> to the even neighbour; away from halves they
  agree.
\<close>

definition spec_discrete_index :: "real \<Rightarrow> nat \<Rightarrow> int" where
  "spec_discrete_index alpha count_values = round (alpha * (real count_values - 1))"

section \<open>Scenarios\<close>

text \<open>
  The two-issue scenario: issue A with values low and high, issue B with values x, y and z; the
  opponent offers (low, x) three times, then (high, y) twice.
\<close>

definition domain_AB :: domain where
  "domain_AB =
     [(''A'', DiscreteValueSet [DiscreteValue ''low'', DiscreteValue ''high'']),
      (''B'', DiscreteValueSet [DiscreteValue ''x'', DiscreteValue ''y'', DiscreteValue ''z''])]"

definition bid_low_x :: bid where
  "bid_low_x = [''A'' \<mapsto> DiscreteValue ''low'', ''B'' \<mapsto> DiscreteValue ''x'']"

definition bid_high_y :: bid where
  "bid_high_y = [''A'' \<mapsto> DiscreteValue ''high'', ''B'' \<mapsto> DiscreteValue ''y'']"

definition scenario_model :: "py_error + fb_OpponentModel" where
  "scenario_model =
     (case fb_OpponentModel_init domain_AB of
        Inl err \<Rightarrow> Inl err
      | Inr m0 \<Rightarrow>
          Inr (foldl fb_update m0 [bid_low_x, bid_low_x, bid_low_x, bid_high_y, bid_high_y]))"

definition scenario_weight :: "issue \<Rightarrow> py_error + real" where
  "scenario_weight i =
     (case scenario_model of Inl err \<Rightarrow> Inl err | Inr m \<Rightarrow> fb_issue_weight m i)"

text \<open>A domain with one continuous issue, and a discrete issue with seven ranked values.\<close>

definition domain_price :: domain where
  "domain_price = [(''price'', NumberValueSet 0 10 1)]"

definition seven_items :: "(val \<times> real) list" where
  "seven_items =
     [(DiscreteValue ''b'', 0.9), (DiscreteValue ''a'', 1), (DiscreteValue ''c'', 0.8),
      (DiscreteValue ''d'', 0.7), (DiscreteValue ''e'', 0.6), (DiscreteValue ''f'', 0.5),
      (DiscreteValue ''g'', 0.4)]"

section \<open>Properties\<close>

subsection \<open>The fields of an estimator after updates\<close>

lemma est_update_fields:
  "value_set (est_update e v) = value_set e" "est_n (est_update e v) = est_n e"
  "total_count (est_update e v) = total_count e + 1"
  "get_count (est_update e v) k = get_count e k + (if k = v then 1 else 0)"
  by (simp_all add: est_update_def get_count_def)

lemma foldl_est_update_fields:
  "value_set (foldl est_update e obs) = value_set e"
  "est_n (foldl est_update e obs) = est_n e"
  "total_count (foldl est_update e obs) = total_count e + length obs"
  "get_count (foldl est_update e obs) k = get_count e k + count_list obs k"
  by (induction obs arbitrary: e) (simp_all add: est_update_fields)

lemma init_fields:
  assumes "BayesianIssueEstimator_init (DiscreteValueSet vs) = Inr e0"
  shows "value_set e0 = vs" "est_n e0 = length vs" "total_count e0 = 0" "get_count e0 k = 0"
proof -
  have e0: "e0 = \<lparr>value_set = vs, est_n = length vs,
               value_counts = map_of (map (\<lambda>v. (Some v, 0)) vs), total_count = 0\<rparr>"
    using assms by (simp add: BayesianIssueEstimator_init_def)
  show "value_set e0 = vs" "est_n e0 = length vs" "total_count e0 = 0" by (simp_all add: e0)
  have "map_of (map (\<lambda>v. (Some v, 0::nat)) vs) k = None \<or> map_of (map (\<lambda>v. (Some v, 0::nat)) vs) k = Some 0"
    by (induction vs) auto
  then show "get_count e0 k = 0" by (auto simp: e0 get_count_def)
qed

subsection \<open>Comparing logarithms by integer powers\<close>

lemma ln_pow_less:
  fixes a b :: real
  assumes "0 < a" "0 < b" "a ^ m < b ^ k"
  shows "real m * ln a < real k * ln b"
proof -
  have "ln (a ^ m) < ln (b ^ k)" using assms by (subst ln_less_cancel_iff) simp_all
  then show ?thesis by (simp only: ln_realpow)
qed

lemma ln_pows: "11 * ln (2::real) < 7 * ln 3" "14 * ln (2::real) < 5 * ln 7" "5 * ln (3::real) < 8 * ln 2"
  using ln_pow_less[of 2 3 11 7] ln_pow_less[of 2 7 14 5] ln_pow_less[of 3 2 5 8] by simp_all

lemma weights_numeric:
  fixes a b c :: real
  assumes "a = ln 2" "b = ln 3" "c = ln 7"
  shows "1 - (c - 8/7 * a - 3/7 * b) / a < 1 - (2 * a - 3/8 * b) / b"
proof -
  have pa: "0 < a" and pb: "0 < b" using assms by simp_all
  have 1: "11 * a < 7 * b" and 2: "14 * a < 5 * c" and 3: "5 * b < 8 * a"
    using ln_pows assms by simp_all
  have "(2 * a - 3/8 * b) / b = 2 * (a / b) - 3/8" using pb by (simp add: field_simps)
  moreover have "a / b < 7 / 11" using 1 pb by (simp add: field_simps)
  ultimately have B: "(2 * a - 3/8 * b) / b < 79/88" by simp
  have "(c - 8/7 * a - 3/7 * b) / a = c / a - 8/7 - 3/7 * (b / a)" using pa by (simp add: field_simps)
  moreover have "14/5 < c / a" using 2 pa by (simp add: field_simps)
  moreover have "b / a < 8/5" using 3 pa by (simp add: field_simps)
  ultimately have A: "34/35 < (c - 8/7 * a - 3/7 * b) / a" by simp
  have "79/88 < (34/35::real)" by simp
  with A B have "(2 * a - 3/8 * b) / b < (c - 8/7 * a - 3/7 * b) / a" by (rule_tac less_trans[OF less_trans])
  then show ?thesis by linarith
qed

subsection \<open>The entropy of a distribution is at most the logarithm of its size\<close>

lemma gibbs_term:
  fixes p :: real
  assumes "0 < p" "0 < k"
  shows "- (p * ln p) - p * ln k - (1 / k - p) \<le> 0"
    and "p \<noteq> 1 / k \<Longrightarrow> - (p * ln p) - p * ln k - (1 / k - p) < 0"
proof -
  have pos: "0 < 1 / (k * p)" using assms by simp
  have lnq: "ln (1 / (k * p)) = - ln k - ln p"
    using assms by (simp add: ln_div ln_mult)
  have eq: "- (p * ln p) - p * ln k - (1 / k - p) = p * (ln (1 / (k * p)) - (1 / (k * p) - 1))"
    using assms by (simp add: lnq field_simps)
  have le: "ln (1 / (k * p)) - (1 / (k * p) - 1) \<le> 0"
    using ln_le_minus_one[OF pos] by simp
  show "- (p * ln p) - p * ln k - (1 / k - p) \<le> 0"
    unfolding eq using le assms(1) by (simp add: mult_le_0_iff)
  assume ne: "p \<noteq> 1 / k"
  have "1 / (k * p) \<noteq> 1" using ne assms by (auto simp: field_simps)
  then have "ln (1 / (k * p)) \<noteq> 1 / (k * p) - 1"
    using ln_eq_minus_one[OF pos] by blast
  with le have "ln (1 / (k * p)) - (1 / (k * p) - 1) < 0" by simp
  then show "- (p * ln p) - p * ln k - (1 / k - p) < 0"
    unfolding eq using assms(1) by (simp add: mult_less_0_iff)
qed

lemma sum_list_neg_strict:
  fixes xs :: "real list"
  assumes "\<And>x. x \<in> set xs \<Longrightarrow> x \<le> 0" "\<exists>x \<in> set xs. x < 0"
  shows "sum_list xs < 0"
  using assms
proof (induction xs)
  case Nil
  then show ?case by simp
next
  case (Cons a xs)
  have a: "a \<le> 0" using Cons.prems(1) by simp
  have rest: "sum_list xs \<le> 0" using Cons.prems(1) by (intro sum_list_nonpos) simp
  show ?case
  proof (cases "a < 0")
    case True
    with rest show ?thesis by simp
  next
    case False
    with Cons.prems(2) have "\<exists>x \<in> set xs. x < 0" by auto
    with Cons.IH Cons.prems(1) have "sum_list xs < 0" by simp
    with a show ?thesis by simp
  qed
qed

lemma entropy_split:
  fixes ps :: "real list"
  shows "sum_list (map (\<lambda>p. - (p * ln p) - p * L - (c - p)) ps)
       = - sum_list (map (\<lambda>p. p * ln p) ps) - L * sum_list ps - (c * real (length ps) - sum_list ps)"
  by (induction ps) (simp_all add: algebra_simps)

lemma gibbs:
  fixes ps :: "real list"
  assumes pos: "\<And>p. p \<in> set ps \<Longrightarrow> 0 < p" and one: "sum_list ps = 1" and ne: "ps \<noteq> []"
  shows "- sum_list (map (\<lambda>p. p * ln p) ps) \<le> ln (real (length ps))"
    and "\<exists>p \<in> set ps. p \<noteq> 1 / real (length ps) \<Longrightarrow>
         - sum_list (map (\<lambda>p. p * ln p) ps) < ln (real (length ps))"
proof -
  let ?k = "real (length ps)"
  let ?g = "\<lambda>p. - (p * ln p) - p * ln ?k - (1 / ?k - p)"
  have k: "0 < ?k" using ne by simp
  have split: "sum_list (map ?g ps) = - sum_list (map (\<lambda>p. p * ln p) ps) - ln ?k"
    unfolding entropy_split using one k by simp
  have gle: "?g p \<le> 0" if "p \<in> set ps" for p
    using gibbs_term(1)[OF pos[OF that] k] .
  have "sum_list (map ?g ps) \<le> 0"
  proof (rule sum_list_nonpos)
    fix x assume "x \<in> set (map ?g ps)"
    then obtain p where "p \<in> set ps" "x = ?g p" by auto
    then show "x \<le> 0" using gle by blast
  qed
  then show "- sum_list (map (\<lambda>p. p * ln p) ps) \<le> ln ?k" unfolding split by simp
  assume "\<exists>p \<in> set ps. p \<noteq> 1 / ?k"
  then obtain q where q: "q \<in> set ps" "q \<noteq> 1 / ?k" by blast
  have "sum_list (map ?g ps) < 0"
  proof (rule sum_list_neg_strict)
    fix x assume "x \<in> set (map ?g ps)"
    then obtain p where "p \<in> set ps" "x = ?g p" by auto
    then show "x \<le> 0" using gle by blast
  next
    have "?g q < 0" using gibbs_term(2)[OF pos[OF q(1)] k q(2)] .
    then show "\<exists>x \<in> set (map ?g ps). x < 0" using q(1) by auto
  qed
  then show "- sum_list (map (\<lambda>p. p * ln p) ps) < ln ?k" unfolding split by simp
qed

subsection \<open>Estimators that have seen their own values only\<close>

lemma sum_list_indicator:
  "distinct vs \<Longrightarrow> v \<in> set vs \<Longrightarrow>
   sum_list (map (\<lambda>u. f u + (if u = v then 1 else 0)) vs) = sum_list (map f vs) + (1::nat)"
proof (induction vs)
  case Nil
  then show ?case by simp
next
  case (Cons a vs)
  have same: "sum_list (map (\<lambda>u. f u + (if u = v then 1 else 0)) ws) = sum_list (map f ws)"
    if "v \<notin> set ws" for ws
    using that by (induction ws) auto
  show ?case
  proof (cases "a = v")
    case True
    with Cons.prems have "v \<notin> set vs" by simp
    with True show ?thesis by (simp add: same)
  next
    case False
    with Cons show ?thesis by simp
  qed
qed

lemma est_ok_denominator:
  assumes "est_ok e"
  shows "0 < est_n e" "0 < real (total_count e + est_n e)"
proof -
  show "0 < est_n e" using assms by (simp add: est_ok_def)
  then show "0 < real (total_count e + est_n e)" by (simp only: of_nat_0_less_iff)
qed

lemma est_ok_update:
  assumes "est_ok e" "distinct (value_set e)" "v \<in> set (value_set e)"
  shows "est_ok (est_update e (Some v))"
  using assms sum_list_indicator[of "value_set e" v "\<lambda>u. get_count e (Some u)"]
  by (simp add: est_ok_def est_update_fields inj_eq)

lemma est_ok_init:
  assumes "BayesianIssueEstimator_init (DiscreteValueSet vs) = Inr e0" "vs \<noteq> []"
  shows "est_ok e0"
  using assms by (simp add: est_ok_def init_fields[OF assms(1)])

lemma sum_list_probabilities:
  assumes "est_ok e"
  shows "sum_list (probabilities e) = 1"
proof -
  let ?d = "real (total_count e + est_n e)"
  have d: "0 < ?d" using est_ok_denominator[OF assms] by simp
  have "sum_list (map (\<lambda>v. real (f v + 1) / c) vs) = (real (sum_list (map f vs)) + real (length vs)) / c"
    for f :: "val \<Rightarrow> nat" and c :: real and vs
    by (induction vs) (simp_all add: add_divide_distrib)
  then have "sum_list (probabilities e) = (real (total_count e) + real (est_n e)) / ?d"
    using assms by (simp add: probabilities_def est_ok_def)
  then show ?thesis using d by simp
qed

lemma probabilities_pos:
  assumes "est_ok e" "p \<in> set (probabilities e)"
  shows "0 < p"
proof -
  from assms(2) obtain v where "p = real (get_count e (Some v) + 1) / real (total_count e + est_n e)"
    by (auto simp: probabilities_def)
  then show ?thesis using est_ok_denominator(2)[OF assms(1)] by simp
qed

lemma entropy_le:
  assumes "est_ok e"
  shows "entropy e \<le> ln (real (est_n e))"
proof -
  have len: "length (probabilities e) = est_n e" using assms by (simp add: probabilities_def est_ok_def)
  have ne: "probabilities e \<noteq> []" using assms by (simp add: probabilities_def est_ok_def)
  show ?thesis
    using gibbs(1)[OF probabilities_pos[OF assms] sum_list_probabilities[OF assms] ne]
    by (simp add: entropy_def len)
qed

lemma entropy_less:
  assumes "est_ok e" "v \<in> set (value_set e)"
    "real (get_count e (Some v) + 1) / real (total_count e + est_n e) \<noteq> 1 / real (est_n e)"
  shows "entropy e < ln (real (est_n e))"
proof -
  have len: "length (probabilities e) = est_n e" using assms by (simp add: probabilities_def est_ok_def)
  have ne: "probabilities e \<noteq> []" using assms by (simp add: probabilities_def est_ok_def)
  have "\<exists>p \<in> set (probabilities e). p \<noteq> 1 / real (length (probabilities e))"
    unfolding len using assms(2,3) by (auto simp: probabilities_def)
  then show ?thesis
    using gibbs(2)[OF probabilities_pos[OF assms(1)] sum_list_probabilities[OF assms(1)] ne]
    by (simp add: entropy_def len)
qed

lemma get_weight_ok:
  assumes "est_ok e"
  shows "get_weight e =
    Inr (1 - (if ln (real (est_n e)) > 0 then entropy e / ln (real (est_n e)) else 0))"
  using assms by (simp add: get_weight_def est_ok_def Let_def)

lemma get_weight_nonneg:
  assumes "est_ok e"
  shows "\<exists>w. get_weight e = Inr w \<and> 0 \<le> w"
proof (cases "ln (real (est_n e)) > 0")
  case True
  then have "entropy e / ln (real (est_n e)) \<le> 1"
    using entropy_le[OF assms] by (simp add: divide_le_eq_1_pos)
  with True show ?thesis by (simp add: get_weight_ok[OF assms])
next
  case False
  then show ?thesis by (simp add: get_weight_ok[OF assms])
qed

lemma get_weight_pos:
  assumes "est_ok e"
    and "est_n e = 1 \<or> (\<exists>v \<in> set (value_set e).
       real (get_count e (Some v) + 1) / real (total_count e + est_n e) \<noteq> 1 / real (est_n e))"
  shows "\<exists>w. get_weight e = Inr w \<and> 0 < w"
proof (cases "est_n e = 1")
  case True
  then show ?thesis by (simp add: get_weight_ok[OF assms(1)])
next
  case False
  with assms(2) obtain v where "v \<in> set (value_set e)"
    "real (get_count e (Some v) + 1) / real (total_count e + est_n e) \<noteq> 1 / real (est_n e)" by blast
  from entropy_less[OF assms(1) this] have less: "entropy e < ln (real (est_n e))" .
  show ?thesis
  proof (cases "ln (real (est_n e)) > 0")
    case True
    then have "entropy e / ln (real (est_n e)) < 1"
      using less by (simp add: divide_less_eq_1_pos)
    with True show ?thesis by (simp add: get_weight_ok[OF assms(1)])
  next
    case False
    then show ?thesis by (simp add: get_weight_ok[OF assms(1)])
  qed
qed

lemma get_value_utility_unit:
  assumes "est_ok e" "v \<in> set (value_set e)"
  shows "\<exists>u. get_value_utility e (Some v) = Inr u \<and> 0 < u \<and> u \<le> 1"
proof -
  have "get_count e (Some v) \<le> sum_list (map (\<lambda>v. get_count e (Some v)) (value_set e))"
    using assms(2) by (intro member_le_sum_list) auto
  then have "get_count e (Some v) \<le> total_count e" using assms(1) by (simp add: est_ok_def)
  moreover have "0 < est_n e" using assms(1) by (simp add: est_ok_def)
  ultimately show ?thesis by (simp add: get_value_utility_def)
qed

subsection \<open>The estimates in terms of the observations\<close>

lemma value_utility_after:
  assumes "BayesianIssueEstimator_init (DiscreteValueSet vs) = Inr e0" "vs \<noteq> []"
  shows "get_value_utility (foldl est_update e0 obs) v =
         Inr (spec_value_utility (count_list obs v) (length obs) (length vs))"
  using assms(2)
  by (simp add: get_value_utility_def foldl_est_update_fields init_fields[OF assms(1)]
      spec_value_utility_def add.commute)

lemma weight_after:
  assumes "BayesianIssueEstimator_init (DiscreteValueSet vs) = Inr e0" "vs \<noteq> []" "distinct vs"
  shows "get_weight (foldl est_update e0 obs) =
         Inr (spec_issue_weight (set vs)
               (\<lambda>v. spec_value_utility (count_list obs (Some v)) (length obs) (length vs)))"
proof -
  let ?e = "foldl est_update e0 obs"
  let ?p = "\<lambda>v. spec_value_utility (count_list obs (Some v)) (length obs) (length vs)"
  have f: "value_set ?e = vs" "est_n ?e = length vs" "total_count ?e = length obs"
    "\<And>k. get_count ?e k = count_list obs k"
    by (simp_all add: foldl_est_update_fields init_fields[OF assms(1)])
  have len: "0 < length vs" using assms(2) by simp
  have card: "card (set vs) = length vs" using assms(3) by (simp add: distinct_card)
  have probs: "probabilities ?e = map ?p vs"
    by (simp add: probabilities_def f spec_value_utility_def add.commute)
  have "entropy ?e = - sum_list (map (\<lambda>v. ?p v * ln (?p v)) vs)"
    by (simp add: entropy_def probs comp_def)
  also have "\<dots> = spec_shannon_entropy (set vs) ?p"
    by (simp add: spec_shannon_entropy_def sum_list_distinct_conv_sum_set[OF assms(3)])
  finally have ent: "entropy ?e = spec_shannon_entropy (set vs) ?p" .
  have pos: "(0 < ln (real (length vs))) = (length vs \<noteq> 1)"
  proof (cases "length vs = 1")
    case True
    then show ?thesis by simp
  next
    case False
    with len have "1 < length vs" by linarith
    then have "1 < real (length vs)" by simp
    then have "0 < ln (real (length vs))" by (rule ln_gt_zero)
    with False show ?thesis by simp
  qed
  show ?thesis
    using len by (simp add: get_weight_def f Let_def ent pos spec_issue_weight_def
        spec_normalized_entropy_def card)
qed


subsection \<open>The weights of the two-issue scenario\<close>

lemma ln_4_8: "ln (4::real) = 2 * ln 2" "ln (8::real) = 3 * ln 2"
  using ln_realpow[of "2::real" 2] ln_realpow[of "2::real" 3] by simp_all

lemma scenario_weights:
  "scenario_weight ''A'' = Inr (1 - (ln 7 - 8/7 * ln 2 - 3/7 * ln 3) / ln 2)"
  "scenario_weight ''B'' = Inr (1 - (2 * ln 2 - 3/8 * ln 3) / ln 3)"
proof -
  have A: "- (4 * ln (4 / 7 :: real) / 7) - 3 * ln (3 / 7 :: real) / 7 = ln 7 - 8 * ln 2 / 7 - 3 * ln 3 / 7"
    by (simp add: ln_div ln_4_8 field_simps)
  have B: "- (3 * ln (3 / 8 :: real) / 8) - ln (1 / 8 :: real) / 8 - ln (1 / 2 :: real) / 2
      = 2 * ln 2 - 3 * ln 3 / 8"
    by (simp add: ln_div ln_4_8 field_simps)
  show "scenario_weight ''A'' = Inr (1 - (ln 7 - 8/7 * ln 2 - 3/7 * ln 3) / ln 2)"
    using A
    by (simp add: scenario_weight_def scenario_model_def fb_OpponentModel_init_def domain_AB_def
        BayesianIssueEstimator_init_def fb_update_def fb_issue_weight_def est_update_def
        get_count_def getValue_def bid_low_x_def bid_high_y_def get_weight_def entropy_def
        probabilities_def Let_def)
  show "scenario_weight ''B'' = Inr (1 - (2 * ln 2 - 3/8 * ln 3) / ln 3)"
    using B
    by (simp add: scenario_weight_def scenario_model_def fb_OpponentModel_init_def domain_AB_def
        BayesianIssueEstimator_init_def fb_update_def fb_issue_weight_def est_update_def
        get_count_def getValue_def bid_low_x_def bid_high_y_def get_weight_def entropy_def
        probabilities_def Let_def)
qed

subsection \<open>Strategic conceder: the target utility\<close>

lemma update_target_utility_fields:
  "sc_reservation_value (update_target_utility s) = sc_reservation_value s"
  "sc_target_utility (update_target_utility s) =
     max (sc_reservation_value s) (sc_target_utility s - 0.0005)"
  by (simp_all add: update_target_utility_def Let_def)

lemma funpow_reservation:
  "sc_reservation_value ((update_target_utility ^^ k) s) = sc_reservation_value s"
  by (induction k) (simp_all add: update_target_utility_fields)

lemma target_after_Suc:
  "target_after (Suc k) s = max (sc_reservation_value s) (target_after k s - 0.0005)"
  by (simp add: target_after_def update_target_utility_fields funpow_reservation)

lemma max_floor_step:
  fixes r t c :: real
  assumes "0 \<le> c"
  shows "max r (max r (t - c * real k) - c) = max r (t - c * real (Suc k))"
proof -
  have "c * real (Suc k) = c * real k + c" by (simp add: algebra_simps)
  then show ?thesis using assms by (auto simp: max_def)
qed

lemma target_after_closed:
  assumes "sc_reservation_value s \<le> sc_target_utility s"
  shows "target_after k s = max (sc_reservation_value s) (sc_target_utility s - 0.0005 * real k)"
proof (induction k)
  case 0
  then show ?case using assms by (simp add: target_after_def)
next
  case (Suc k)
  show ?case unfolding target_after_Suc Suc.IH by (rule max_floor_step) simp
qed

lemma sc_settings_invariant:
  "r \<le> 1 \<Longrightarrow> sc_reservation_value (sc_settings (Some r) sc_init)
     \<le> sc_target_utility (sc_settings (Some r) sc_init)"
  "sc_reservation_value (sc_settings None sc_init) \<le> sc_target_utility (sc_settings None sc_init)"
  by (simp_all add: sc_settings_def sc_init_def)

text \<open>
  C4. Each turn \<open>_update_target_utility\<close> lowers the target utility by 0.0005 and floors it at the
  reservation value. From a state whose target is not below the reservation value (the agent
  starts at 1.0, the largest utility), the targets of successive turns never rise, never fall
  below the reservation value, and fall strictly while they are above it; with reservation
  value 0.3 and start 1.0 they fall strictly over the first 100 turns and stay at or above 0.3.
\<close>

theorem C4_target_utility:
  assumes "sc_reservation_value s \<le> sc_target_utility s"
  shows "sc_target_utility (update_target_utility s)
           = max (sc_reservation_value s) (sc_target_utility s - 0.0005)
       \<and> sc_reservation_value (update_target_utility s) = sc_reservation_value s
       \<and> target_after (Suc k) s \<le> target_after k s
       \<and> sc_reservation_value s \<le> target_after k s
       \<and> (sc_reservation_value s < target_after k s
            \<longrightarrow> target_after (Suc k) s < target_after k s)
       \<and> (sc_reservation_value s = 0.3 \<and> sc_target_utility s = 1 \<and> k < 100
            \<longrightarrow> target_after (Suc k) s < target_after k s \<and> 0.3 \<le> target_after (Suc k) s)"
proof -
  have closed: "target_after j s = max (sc_reservation_value s) (sc_target_utility s - 0.0005 * real j)" for j
    by (rule target_after_closed[OF assms])
  have ge: "sc_reservation_value s \<le> target_after j s" for j by (simp add: closed)
  have le: "target_after (Suc k) s \<le> target_after k s"
    unfolding target_after_Suc using ge[of k] by simp
  have strict: "target_after (Suc k) s < target_after k s"
    if "sc_reservation_value s < target_after k s"
    unfolding target_after_Suc using that by simp
  have scen: "target_after (Suc k) s < target_after k s \<and> 0.3 \<le> target_after (Suc k) s"
    if h: "sc_reservation_value s = 0.3" "sc_target_utility s = 1" "k < 100"
  proof -
    have "(0.3::real) < 1 - 0.0005 * real k" using h(3) by simp
    then have "sc_reservation_value s < target_after k s"
      unfolding closed h less_max_iff_disj by (rule disjI2)
    then have "target_after (Suc k) s < target_after k s" by (rule strict)
    moreover have "0.3 \<le> target_after (Suc k) s" unfolding h(1)[symmetric] by (rule ge)
    ultimately show ?thesis by simp
  qed
  show ?thesis using ge[of k] le strict scen by (simp add: update_target_utility_fields)
qed

theorem C4_target_utility_witness:
  "target_after 100 (sc_settings (Some 0.3) sc_init) < target_after 99 (sc_settings (Some 0.3) sc_init)
   \<and> 0.3 \<le> target_after 100 (sc_settings (Some 0.3) sc_init)"
proof -
  have h: "sc_reservation_value (sc_settings (Some 0.3) sc_init)
      \<le> sc_target_utility (sc_settings (Some 0.3) sc_init)"
    by (simp add: sc_settings_def sc_init_def)
  have v: "sc_reservation_value (sc_settings (Some 0.3) sc_init) = 0.3"
    "sc_target_utility (sc_settings (Some 0.3) sc_init) = 1"
    by (simp_all add: sc_settings_def sc_init_def)
  have "Suc 99 = 100" by simp
  then show ?thesis using C4_target_utility[OF h, of 99] v by simp
qed

subsection \<open>Strategic conceder: acceptance\<close>

text \<open>
  C8. \<open>accept_condition\<close> answers True exactly when an offer has been received, its own
  utility is at least the reservation value and at least the own utility of the bid the agent
  would propose next; with no received bid it answers False. Received utility 0.7 against next
  offer 0.65 and reservation 0.5 is accepted; received utility 0.4 against reservation 0.5 is
  rejected whatever the next offer is.
\<close>

theorem C8_accept_condition:
  "sc_accept_condition s profile received next_bid
     = (\<exists>rb. received = Some rb \<and> sc_reservation_value s \<le> profile rb
              \<and> profile next_bid \<le> profile rb)
   \<and> sc_accept_condition s profile None next_bid = False
   \<and> (sc_reservation_value s = 0.5 \<and> profile rb = 0.7 \<and> profile next_bid = 0.65
        \<longrightarrow> sc_accept_condition s profile (Some rb) next_bid)
   \<and> (sc_reservation_value s = 0.5 \<and> profile rb = 0.4
        \<longrightarrow> \<not> sc_accept_condition s profile (Some rb) next_bid)"
  by (cases received) (simp_all add: sc_accept_condition_def Let_def)

theorem C8_accept_condition_witness:
  "sc_accept_condition (sc_settings (Some 0.5) sc_init)
     (\<lambda>b. if b ''A'' = Some (DiscreteValue ''low'') then 0.7 else 0.65)
     (Some bid_low_x) bid_high_y"
  using C8_accept_condition[of "sc_settings (Some 0.5) sc_init"
      "\<lambda>b. if b ''A'' = Some (DiscreteValue ''low'') then 0.7 else 0.65"
      "Some bid_low_x" bid_high_y bid_low_x]
  by (simp add: sc_settings_def sc_init_def bid_low_x_def bid_high_y_def)

subsection \<open>Deadline pusher: the concession curve\<close>

text \<open>
  C6. With the agent's parameters \<open>\<kappa> = 0.1\<close> and \<open>\<beta> = 0.2\<close>, the concession curve
  \<open>\<alpha>(t) = \<kappa> + (1 - \<kappa>) \<sqdot> t ** (1 / \<beta>)\<close> has \<open>\<alpha>(0) = \<kappa>\<close> and \<open>\<alpha>(1) = 1\<close>, and it does not
  decrease as \<open>t\<close> grows from 0.
\<close>

theorem C6_concession_curve:
  "dp_kappa dp_init = 0.1 \<and> dp_beta dp_init = 0.2
   \<and> compute_alpha dp_init 0 = dp_kappa dp_init
   \<and> compute_alpha dp_init 1 = 1
   \<and> (0 \<le> t1 \<and> t1 \<le> t2 \<and> t2 \<le> 1 \<longrightarrow> compute_alpha dp_init t1 \<le> compute_alpha dp_init t2)"
proof -
  have mono: "compute_alpha dp_init t1 \<le> compute_alpha dp_init t2" if "0 \<le> t1" "t1 \<le> t2"
  proof -
    have "t1 powr 5 \<le> t2 powr 5" using that by (intro powr_mono2) simp_all
    then show ?thesis by (simp add: compute_alpha_def dp_init_def)
  qed
  show ?thesis using mono by (simp add: compute_alpha_def dp_init_def)
qed

theorem C6_concession_curve_witness:
  "compute_alpha dp_init (1 / 2) \<le> compute_alpha dp_init 1"
  using C6_concession_curve[of "1 / 2" 1] by simp

subsection \<open>Frequency-Bayesian estimates\<close>

text \<open>
  C5. For a discrete issue with the possible values \<open>vs\<close>, after any sequence \<open>obs\<close> of
  observed values: the estimator's count of \<open>v\<close> is the number of times \<open>v\<close> was observed, its
  total is the number of observations, the value-utility estimate of \<open>v\<close> is
  \<open>(count(v) + 1) / (totalObservations + numPossibleValues)\<close>, and the issue weight is
  \<open>1 - normalizedEntropy\<close> of the smoothed distribution, the normalized entropy being the
  Shannon entropy over \<open>ln(numPossibleValues)\<close> and 0 for a single possible value.
\<close>

theorem C5_frequency_bayesian_estimates:
  assumes "BayesianIssueEstimator_init (DiscreteValueSet vs) = Inr e0" "vs \<noteq> []" "distinct vs"
  shows "get_count (foldl est_update e0 obs) v = count_list obs v
       \<and> total_count (foldl est_update e0 obs) = length obs
       \<and> est_n (foldl est_update e0 obs) = length vs
       \<and> get_value_utility (foldl est_update e0 obs) v
           = Inr (spec_value_utility (count_list obs v) (length obs) (length vs))
       \<and> get_weight (foldl est_update e0 obs)
           = Inr (spec_issue_weight (set vs)
                   (\<lambda>x. spec_value_utility (count_list obs (Some x)) (length obs) (length vs)))"
  using value_utility_after[OF assms(1,2)] weight_after[OF assms]
  by (simp add: foldl_est_update_fields init_fields[OF assms(1)])

theorem C5_frequency_bayesian_estimates_witness:
  "get_value_utility
     (foldl est_update
        (projr (BayesianIssueEstimator_init
                  (DiscreteValueSet [DiscreteValue ''low'', DiscreteValue ''high''])))
        [Some (DiscreteValue ''low'')])
     (Some (DiscreteValue ''low'')) = Inr (2 / 3)"
  using C5_frequency_bayesian_estimates[of "[DiscreteValue ''low'', DiscreteValue ''high'']"
      "projr (BayesianIssueEstimator_init
                (DiscreteValueSet [DiscreteValue ''low'', DiscreteValue ''high'']))"
      "[Some (DiscreteValue ''low'')]" "Some (DiscreteValue ''low'')"]
  by (simp add: BayesianIssueEstimator_init_def spec_value_utility_def)

subsection \<open>The two-issue scenario\<close>

text \<open>
  C2, as the specification states it, fails: after the five updates (low, x), (low, x),
  (low, x), (high, y), (high, y) the weight of issue A does not exceed the weight of issue B.
\<close>

theorem C2_weight_order_counterexample:
  "\<not> isl (scenario_weight ''A'') \<and> \<not> isl (scenario_weight ''B'')
   \<and> \<not> (projr (scenario_weight ''B'') < projr (scenario_weight ''A''))"
  using weights_numeric[OF refl refl refl] by (simp add: scenario_weights)

text \<open>
  C2, amended. After the five updates both weights are computed without error, and the
  entropy-derived weight of issue B strictly exceeds the weight of issue A: A's smoothed
  distribution (4/7, 3/7) is closer to uniform than B's (4/8, 3/8, 1/8).
\<close>

theorem C2_weight_order:
  "\<not> isl (scenario_weight ''A'') \<and> \<not> isl (scenario_weight ''B'')
   \<and> projr (scenario_weight ''A'') < projr (scenario_weight ''B'')"
  using weights_numeric[OF refl refl refl] by (simp add: scenario_weights)

subsection \<open>The Frequency-Bayesian model over a well-formed domain\<close>

lemma build_members:
  "fb_build_estimators d = Inr es \<Longrightarrow> (i, e) \<in> set es \<Longrightarrow>
   \<exists>vs. (i, vs) \<in> set d \<and> BayesianIssueEstimator_init vs = Inr e"
proof (induction d arbitrary: es)
  case Nil
  then show ?case by simp
next
  case (Cons a d)
  obtain j vs where a: "a = (j, vs)" by (cases a)
  from Cons.prems(1) obtain e1 es1 where
    e1: "BayesianIssueEstimator_init vs = Inr e1" and es1: "fb_build_estimators d = Inr es1"
    and es: "es = (j, e1) # es1"
    by (auto simp: a split: sum.splits)
  show ?case
  proof (cases "(i, e) = (j, e1)")
    case True
    then show ?thesis using e1 a by auto
  next
    case False
    then have "(i, e) \<in> set es1" using Cons.prems(2) es by auto
    from Cons.IH[OF es1 this] show ?thesis by auto
  qed
qed

lemma build_length:
  "fb_build_estimators d = Inr es \<Longrightarrow> length es = length d"
  by (induction d arbitrary: es) (auto split: sum.splits)

lemma build_discrete:
  "discrete_domain d \<Longrightarrow> \<exists>es. fb_build_estimators d = Inr es"
proof (induction d)
  case Nil
  then show ?case by simp
next
  case (Cons a d)
  obtain j vs where a: "a = (j, vs)" by (cases a)
  from Cons.prems have "isDiscrete vs" "discrete_domain d" by (simp_all add: discrete_domain_def a)
  then obtain es e where "fb_build_estimators d = Inr es" "BayesianIssueEstimator_init vs = Inr e"
    using Cons.IH by (cases vs) (auto simp: isDiscrete_def BayesianIssueEstimator_init_def)
  then show ?case by (simp add: a)
qed

lemma init_discrete:
  assumes "BayesianIssueEstimator_init vs = Inr e"
  shows "vs = DiscreteValueSet (value_set e)"
  using assms by (cases vs) (auto simp: BayesianIssueEstimator_init_def)

lemma valid_domain_member:
  "valid_domain d \<Longrightarrow> (i, vs) \<in> set d \<Longrightarrow> valid_value_set vs"
  by (auto simp: valid_domain_def list_all_iff)

lemma valid_bid_value:
  assumes "valid_bid d b" "(i, DiscreteValueSet l) \<in> set d"
  shows "\<exists>v. getValue b i = Some v \<and> v \<in> set l"
proof -
  have "value_in (DiscreteValueSet l) (getValue b i)"
    using assms by (auto simp: valid_bid_def list_all_iff)
  then show ?thesis by (cases "getValue b i") (simp_all add: value_in_def)
qed

lemma fb_inv_init:
  assumes "valid_domain d" "fb_build_estimators d = Inr es"
  shows "fb_inv d es"
  unfolding fb_inv_def
proof (intro ballI, clarify)
  fix i e assume "(i, e) \<in> set es"
  from build_members[OF assms(2) this] obtain vs where
    vs: "(i, vs) \<in> set d" "BayesianIssueEstimator_init vs = Inr e" by blast
  have eq: "vs = DiscreteValueSet (value_set e)" using init_discrete[OF vs(2)] .
  have "valid_value_set vs" using valid_domain_member[OF assms(1) vs(1)] .
  then have l: "value_set e \<noteq> []" "distinct (value_set e)"
    by (subst (asm) eq, simp add: valid_value_set_def)+
  have "est_ok e" using est_ok_init[of "value_set e" e] vs(2) eq l(1) by simp
  then show "(i, DiscreteValueSet (value_set e)) \<in> set d \<and> distinct (value_set e) \<and> est_ok e"
    using vs(1) eq l by simp
qed

lemma fb_inv_update:
  assumes "fb_inv d es" "valid_bid d b"
  shows "fb_inv d (map (\<lambda>(i, e). (i, est_update e (getValue b i))) es)"
  unfolding fb_inv_def
proof (intro ballI, clarify)
  fix i e' assume "(i, e') \<in> set (map (\<lambda>(i, e). (i, est_update e (getValue b i))) es)"
  then obtain e where e: "(i, e) \<in> set es" "e' = est_update e (getValue b i)" by auto
  from assms(1) e(1) have inv: "(i, DiscreteValueSet (value_set e)) \<in> set d"
    "distinct (value_set e)" "est_ok e" by (auto simp: fb_inv_def)
  from valid_bid_value[OF assms(2) inv(1)] obtain v where
    v: "getValue b i = Some v" "v \<in> set (value_set e)" by blast
  have "est_ok e'" unfolding e(2) v(1) by (rule est_ok_update[OF inv(3) inv(2) v(2)])
  then show "(i, DiscreteValueSet (value_set e')) \<in> set d \<and> distinct (value_set e') \<and> est_ok e'"
    using inv by (simp add: e(2) est_update_fields)
qed

lemma fb_inv_estimates:
  assumes "fb_inv d es" "valid_bid d b" "(i, e) \<in> set es"
  shows "\<exists>w u. get_weight e = Inr w \<and> get_value_utility e (getValue b i) = Inr u
               \<and> 0 \<le> w \<and> 0 \<le> u \<and> u \<le> 1"
proof -
  from assms(1,3) have inv: "(i, DiscreteValueSet (value_set e)) \<in> set d" "est_ok e"
    by (auto simp: fb_inv_def)
  from valid_bid_value[OF assms(2) inv(1)] obtain v where
    v: "getValue b i = Some v" "v \<in> set (value_set e)" by blast
  from get_weight_nonneg[OF inv(2)] obtain w where w: "get_weight e = Inr w" "0 \<le> w" by blast
  from get_value_utility_unit[OF inv(2) v(2)] obtain u where
    u: "get_value_utility e (Some v) = Inr u" "0 < u" "u \<le> 1" by blast
  show ?thesis using w u v(1) by auto
qed

lemma loop_unit:
  assumes "\<And>i e. (i, e) \<in> set es \<Longrightarrow>
      \<exists>w u. get_weight e = Inr w \<and> get_value_utility e (getValue b i) = Inr u
             \<and> 0 \<le> w \<and> 0 \<le> u \<and> u \<le> 1"
    and "0 \<le> pu" "pu \<le> tw"
  shows "\<exists>pu' tw'. fb_predict_loop es b pu tw = Inr (pu', tw') \<and> 0 \<le> pu' \<and> pu' \<le> tw'"
  using assms
proof (induction es arbitrary: pu tw)
  case Nil
  then show ?case by simp
next
  case (Cons a es)
  obtain i e where a: "a = (i, e)" by (cases a)
  from Cons.prems(1)[of i e] obtain w u where
    wu: "get_weight e = Inr w" "get_value_utility e (getValue b i) = Inr u"
        "0 \<le> w" "0 \<le> u" "u \<le> 1" by (auto simp: a)
  have "w * u \<le> w" using wu(3,5) by (simp add: mult_left_le)
  then have 1: "pu + w * u \<le> tw + w" using Cons.prems(3) by simp
  have 0: "0 \<le> pu + w * u" using Cons.prems(2) wu(3,4) by simp
  have "\<exists>pu' tw'. fb_predict_loop es b (pu + w * u) (tw + w) = Inr (pu', tw') \<and> 0 \<le> pu' \<and> pu' \<le> tw'"
    using Cons.prems(1) by (intro Cons.IH[OF _ 0 1]) simp
  then show ?case by (simp add: a wu)
qed

lemma loop_pos:
  assumes "\<And>i e. (i, e) \<in> set es \<Longrightarrow>
      \<exists>w u. get_weight e = Inr w \<and> get_value_utility e (getValue b i) = Inr u \<and> 0 < w \<and> 0 < u"
    and "(0 < pu \<and> 0 < tw) \<or> (0 \<le> pu \<and> 0 \<le> tw \<and> es \<noteq> [])"
  shows "\<exists>pu' tw'. fb_predict_loop es b pu tw = Inr (pu', tw') \<and> 0 < pu' \<and> 0 < tw'"
  using assms
proof (induction es arbitrary: pu tw)
  case Nil
  then show ?case by simp
next
  case (Cons a es)
  obtain i e where a: "a = (i, e)" by (cases a)
  from Cons.prems(1)[of i e] obtain w u where
    wu: "get_weight e = Inr w" "get_value_utility e (getValue b i) = Inr u" "0 < w" "0 < u"
    by (auto simp: a)
  have "0 \<le> pu" "0 \<le> tw" using Cons.prems(2) by auto
  moreover have "0 < w * u" using wu(3,4) by simp
  ultimately have "0 < pu + w * u \<and> 0 < tw + w" using wu(3) by simp
  then have "\<exists>pu' tw'. fb_predict_loop es b (pu + w * u) (tw + w) = Inr (pu', tw') \<and> 0 < pu' \<and> 0 < tw'"
    using Cons.prems(1) by (intro Cons.IH) simp_all
  then show ?case by (simp add: a wu)
qed

lemma predicted_unit:
  assumes "fb_inv d (fb_issue_estimators m)" "valid_bid d b"
  shows "\<exists>u. fb_get_predicted_utility m (Some b) = Inr u \<and> 0 \<le> u \<and> u \<le> 1"
proof -
  from loop_unit[of "fb_issue_estimators m" b 0 0] fb_inv_estimates[OF assms]
  obtain pu tw where l: "fb_predict_loop (fb_issue_estimators m) b 0 0 = Inr (pu, tw)"
    "0 \<le> pu" "pu \<le> tw" by auto
  show ?thesis using l by (simp add: fb_get_predicted_utility_def)
qed

subsection \<open>Predicted utility across the opponent models\<close>

lemma kde_predicted_unit:
  "0 \<le> kde_get_predicted_utility k bid \<and> kde_get_predicted_utility k bid \<le> 1"
  by (cases bid) (simp_all add: kde_get_predicted_utility_def)

lemma kde_predicted_zero:
  "kde_offers k = [] \<or> bid = None \<Longrightarrow> kde_get_predicted_utility k bid = 0"
  by (cases bid) (simp_all add: kde_get_predicted_utility_def)

lemma fb_predicted_zero:
  "fb_offers m = [] \<or> bid = None \<Longrightarrow> fb_get_predicted_utility m bid = Inr 0"
  by (cases bid) (simp_all add: fb_get_predicted_utility_def)

lemma fb_init_estimators:
  "fb_OpponentModel_init d = Inr m0 \<Longrightarrow> fb_build_estimators d = Inr (fb_issue_estimators m0)"
  "fb_OpponentModel_init d = Inr m0 \<Longrightarrow> fb_offers m0 = []"
  by (auto simp: fb_OpponentModel_init_def split: sum.splits)

lemma domain_AB_valid: "valid_domain domain_AB" "discrete_domain domain_AB"
  by (simp_all add: valid_domain_def discrete_domain_def domain_AB_def valid_value_set_def
      isDiscrete_def)

lemma bids_AB_valid: "valid_bid domain_AB bid_low_x" "valid_bid domain_AB bid_high_y"
  by (simp_all add: valid_bid_def domain_AB_def bid_low_x_def bid_high_y_def value_in_def
      getValue_def)

text \<open>
  C1, as the specification states it for all three variants, fails: the Rank-Distance model of
  the deadline pusher is built without error for the two-issue domain, but it has no
  predicted-utility operation, so a call with an absent bid does not return 0.0.
\<close>

theorem C1_rank_distance_counterexample:
  "\<not> isl (rd_OpponentModel_init domain_AB)
   \<and> offers (RankDistance (projr (rd_OpponentModel_init domain_AB))) = []
   \<and> get_predicted_utility (RankDistance (projr (rd_OpponentModel_init domain_AB))) None
       \<noteq> Inr 0"
  by (simp add: rd_OpponentModel_init_def domain_AB_def IssueEstimator_init_def offers_def
      get_predicted_utility_def)

text \<open>
  C1, amended. For the Frequency-Bayesian and the Density-Estimation model,
  \<open>get_predicted_utility\<close> returns 0.0 when no bid has been observed or the candidate bid is
  absent. The Density-Estimation model clamps its result, which lies in [0, 1] in every state
  and for every bid. The Rank-Distance model has no predicted-utility operation; it exposes
  issue weights only. Nothing is said here about the range of the Frequency-Bayesian result
  for an observed model and a present bid: that model divides by the total weight and does not
  clamp.
\<close>

theorem C1_predicted_utility:
  "(offers (FrequencyBayesian m) = [] \<or> bid = None
      \<longrightarrow> get_predicted_utility (FrequencyBayesian m) bid = Inr 0)
   \<and> (offers (DensityEstimation k) = [] \<or> bid = None
      \<longrightarrow> get_predicted_utility (DensityEstimation k) bid = Inr 0)
   \<and> (\<exists>u. get_predicted_utility (DensityEstimation k) bid = Inr u \<and> 0 \<le> u \<and> u \<le> 1)
   \<and> get_predicted_utility (RankDistance r) bid = Inl AttributeError"
  using kde_predicted_unit[of k bid] kde_predicted_zero[of k bid] fb_predicted_zero[of m bid]
  by (simp add: get_predicted_utility_def offers_def)

theorem C1_predicted_utility_witness:
  "get_predicted_utility (FrequencyBayesian (projr (fb_OpponentModel_init domain_AB))) None = Inr 0
   \<and> get_predicted_utility (DensityEstimation (projr (kde_OpponentModel_init domain_AB))) None
       = Inr 0"
  using C1_predicted_utility[of "projr (fb_OpponentModel_init domain_AB)" None
      "projr (kde_OpponentModel_init domain_AB)"]
  by simp

subsection \<open>Adaptive learner: the initial opponent utility\<close>

lemma first_update_pos:
  assumes "BayesianIssueEstimator_init (DiscreteValueSet l) = Inr e0" "l \<noteq> []" "distinct l"
    "v \<in> set l"
  shows "\<exists>w u. get_weight (est_update e0 (Some v)) = Inr w
             \<and> get_value_utility (est_update e0 (Some v)) (Some v) = Inr u \<and> 0 < w \<and> 0 < u"
proof -
  let ?e = "est_update e0 (Some v)"
  note f0 = init_fields[OF assms(1)]
  have ok0: "est_ok e0" using est_ok_init[OF assms(1,2)] .
  have ok: "est_ok ?e" using est_ok_update[OF ok0] assms(3,4) f0(1) by simp
  have f: "value_set ?e = l" "est_n ?e = length l" "total_count ?e = 1"
    "get_count ?e (Some v) = 1"
    by (simp_all add: est_update_fields f0)
  have len: "0 < length l" using assms(2) by simp
  have "est_n ?e = 1 \<or> (\<exists>x \<in> set (value_set ?e).
       real (get_count ?e (Some x) + 1) / real (total_count ?e + est_n ?e) \<noteq> 1 / real (est_n ?e))"
  proof (cases "length l = 1")
    case True
    then show ?thesis by (simp add: f)
  next
    case False
    with len have "2 \<le> length l" by linarith
    then have "2 * real (length l) \<noteq> 1 + real (length l)" by linarith
    then have "real (1 + 1) / real (1 + length l) \<noteq> 1 / real (length l)"
      using len by (simp add: field_simps)
    then have "real (get_count ?e (Some v) + 1) / real (total_count ?e + est_n ?e)
        \<noteq> 1 / real (est_n ?e)" unfolding f .
    moreover have "v \<in> set (value_set ?e)" using assms(4) by (simp add: f)
    ultimately show ?thesis by blast
  qed
  from get_weight_pos[OF ok this] obtain w where w: "get_weight ?e = Inr w" "0 < w" by blast
  have "v \<in> set (value_set ?e)" using assms(4) by (simp add: f)
  from get_value_utility_unit[OF ok this] obtain u where
    u: "get_value_utility ?e (Some v) = Inr u" "0 < u" by blast
  show ?thesis using w u by blast
qed

lemma first_predicted_pos:
  assumes "valid_domain d" "fb_OpponentModel_init d = Inr m0" "valid_bid d b"
  shows "\<exists>u. fb_get_predicted_utility (fb_update m0 b) (Some b) = Inr u \<and> 0 < u"
proof -
  let ?init = "fb_issue_estimators m0"
  let ?es = "map (\<lambda>(i, e). (i, est_update e (getValue b i))) ?init"
  note build = fb_init_estimators(1)[OF assms(2)]
  have ne: "?es \<noteq> []" using build_length[OF build] assms(1) by (auto simp: valid_domain_def)
  have each: "\<exists>w u. get_weight e' = Inr w \<and> get_value_utility e' (getValue b i) = Inr u
                 \<and> 0 < w \<and> 0 < u" if "(i, e') \<in> set ?es" for i e'
  proof -
    from that obtain e0 where e0: "(i, e0) \<in> set ?init" "e' = est_update e0 (getValue b i)" by auto
    from build_members[OF build e0(1)] obtain vs where
      vs: "(i, vs) \<in> set d" "BayesianIssueEstimator_init vs = Inr e0" by blast
    have eq: "vs = DiscreteValueSet (value_set e0)" using init_discrete[OF vs(2)] .
    have "valid_value_set vs" using valid_domain_member[OF assms(1) vs(1)] .
    then have l: "value_set e0 \<noteq> []" "distinct (value_set e0)"
      by (subst (asm) eq, simp add: valid_value_set_def)+
    from valid_bid_value[OF assms(3)] vs(1) eq obtain v where
      v: "getValue b i = Some v" "v \<in> set (value_set e0)" by metis
    have "BayesianIssueEstimator_init (DiscreteValueSet (value_set e0)) = Inr e0"
      using vs(2) eq by simp
    from first_update_pos[OF this l v(2)] show ?thesis by (simp add: e0(2) v(1))
  qed
  from loop_pos[of ?es b 0 0] each ne
  obtain pu tw where l: "fb_predict_loop ?es b 0 0 = Inr (pu, tw)" "0 < pu" "0 < tw" by blast
  show ?thesis using l by (simp add: fb_get_predicted_utility_def fb_update_def)
qed

lemma al_inv_init: "al_inv d (al_init d)"
  by (simp add: al_inv_def al_init_def)

lemma al_step:
  assumes "valid_domain d" "discrete_domain d" "al_inv d s" "valid_action d a"
  shows "\<exists>s'. al_opponent_action s a = Inr s' \<and> al_inv d s'
           \<and> (al_initial_opponent_utility s' = None
                \<longleftrightarrow> al_initial_opponent_utility s = None \<and> \<not> is_offer a)"
proof (cases a)
  case (Offer b)
  have vb: "valid_bid d b" using assms(4) by (simp add: valid_action_def Offer)
  have dom: "al_domain s = d" using assms(3) by (simp add: al_inv_def)
  show ?thesis
  proof (cases "al_opponent_model s")
    case None
    have none: "al_initial_opponent_utility s = None" using assms(3) by (simp add: al_inv_def None)
    from build_discrete[OF assms(2)] obtain m0 where m0: "fb_OpponentModel_init d = Inr m0"
      by (auto simp: fb_OpponentModel_init_def)
    from first_predicted_pos[OF assms(1) m0 vb] obtain u where
      u: "fb_get_predicted_utility (fb_update m0 b) (Some b) = Inr u" "0 < u" by blast
    have "fb_inv d (fb_issue_estimators m0)"
      using fb_inv_init[OF assms(1) fb_init_estimators(1)[OF m0]] .
    then have inv: "fb_inv d (fb_issue_estimators (fb_update m0 b))"
      using fb_inv_update[OF _ vb] by (simp add: fb_update_def)
    have off: "fb_offers (fb_update m0 b) \<noteq> []" by (simp add: fb_update_def)
    show ?thesis
      using inv off u vb
      by (simp add: al_opponent_action_def Offer None dom m0 none Let_def al_inv_def is_offer_def)
  next
    case (Some m)
    from assms(3) obtain u0 where inv: "fb_inv d (fb_issue_estimators m)"
      "al_initial_opponent_utility s = Some u0" "0 < u0"
      by (auto simp: al_inv_def Some)
    have inv': "fb_inv d (fb_issue_estimators (fb_update m b))"
      using fb_inv_update[OF inv(1) vb] by (simp add: fb_update_def)
    have off: "fb_offers (fb_update m b) \<noteq> []" by (simp add: fb_update_def)
    show ?thesis
      using inv' off inv(2,3) vb
      by (simp add: al_opponent_action_def Offer Some dom Let_def al_inv_def is_offer_def)
  qed
next
  case (Accept b)
  then show ?thesis using assms(3) by (simp add: al_opponent_action_def is_offer_def)
next
  case EndNegotiation
  then show ?thesis using assms(3) by (simp add: al_opponent_action_def is_offer_def)
qed

lemma al_run_inv:
  assumes "valid_domain d" "discrete_domain d" "al_inv d s" "list_all (valid_action d) acts"
  shows "\<exists>s'. al_run s acts = Inr s' \<and> al_inv d s'
           \<and> (al_initial_opponent_utility s' = None
                \<longleftrightarrow> al_initial_opponent_utility s = None \<and> \<not> list_ex is_offer acts)"
  using assms(3,4)
proof (induction acts arbitrary: s)
  case Nil
  then show ?case by simp
next
  case (Cons a acts)
  from Cons.prems(2) have va: "valid_action d a" and rest: "list_all (valid_action d) acts"
    by simp_all
  obtain s1 where
    s1: "al_opponent_action s a = Inr s1 \<and> al_inv d s1
      \<and> (al_initial_opponent_utility s1 = None
         \<longleftrightarrow> al_initial_opponent_utility s = None \<and> \<not> is_offer a)"
    using al_step[OF assms(1,2) Cons.prems(1) va] by (rule exE)
  obtain s' where
    s': "al_run s1 acts = Inr s' \<and> al_inv d s'
      \<and> (al_initial_opponent_utility s' = None
         \<longleftrightarrow> al_initial_opponent_utility s1 = None \<and> \<not> list_ex is_offer acts)"
    using Cons.IH[OF conjunct1[OF conjunct2[OF s1]] rest] by (rule exE)
  show ?case using s1 s' by (intro exI[of _ s']) simp
qed

lemma threshold_returns:
  assumes "al_inv d s"
  shows "\<exists>th. compute_acceptance_threshold s t = Inr th"
proof (cases "al_opponent_model s")
  case None
  then show ?thesis using assms by (simp add: compute_acceptance_threshold_def al_inv_def)
next
  case (Some m)
  from assms obtain u0 b where inv: "fb_inv d (fb_issue_estimators m)"
    "al_initial_opponent_utility s = Some u0" "0 < u0"
    "al_last_received_bid s = Some b" "valid_bid d b"
    by (auto simp: al_inv_def Some)
  from predicted_unit[OF inv(1,5)] obtain cur where
    "fb_get_predicted_utility m (Some b) = Inr cur" by blast
  then show ?thesis using inv(2,3,4) by (simp add: compute_acceptance_threshold_def Some Let_def)
qed

lemma score_returns:
  assumes "al_inv d s" "valid_bid d b"
  shows "\<exists>sc. score_bid s profile t b = Inr sc"
proof (cases "al_opponent_model s")
  case None
  then show ?thesis by (simp add: score_bid_def Let_def)
next
  case (Some m)
  from assms obtain u0 where inv: "fb_inv d (fb_issue_estimators m)"
    "al_initial_opponent_utility s = Some u0" "0 < u0"
    by (auto simp: al_inv_def Some)
  from predicted_unit[OF inv(1) assms(2)] obtain ou where
    "fb_get_predicted_utility m (Some b) = Inr ou" by blast
  then show ?thesis using inv(2,3) by (simp add: score_bid_def Some Let_def)
qed

text \<open>
  C10. In a session over a well-formed discrete domain in which every offered bid is
  well-formed, the adaptive learner processes all opponent actions without error; the initial
  opponent utility is set exactly when an offer has been received; whenever it is set it is
  strictly positive, and then neither \<open>compute_acceptance_threshold\<close> nor \<open>score_bid\<close> (on a
  well-formed bid) raises: their divisions by the initial opponent utility never divide by zero.
\<close>

theorem C10_initial_opponent_utility_positive:
  assumes "valid_domain d" "discrete_domain d" "list_all (valid_action d) acts"
  shows "\<exists>s. al_run (al_init d) acts = Inr s
           \<and> (al_initial_opponent_utility s = None \<longleftrightarrow> \<not> list_ex is_offer acts)
           \<and> (\<forall>u. al_initial_opponent_utility s = Some u \<longrightarrow>
                 0 < u
                 \<and> (\<forall>t. \<exists>th. compute_acceptance_threshold s t = Inr th)
                 \<and> (\<forall>profile t b. valid_bid d b \<longrightarrow> (\<exists>sc. score_bid s profile t b = Inr sc)))"
proof -
  obtain s where
    sall: "al_run (al_init d) acts = Inr s \<and> al_inv d s
      \<and> (al_initial_opponent_utility s = None
         \<longleftrightarrow> al_initial_opponent_utility (al_init d) = None \<and> \<not> list_ex is_offer acts)"
    using al_run_inv[OF assms(1,2) al_inv_init assms(3)] by (rule exE)
  then have s: "al_run (al_init d) acts = Inr s" "al_inv d s"
      "al_initial_opponent_utility s = None
         \<longleftrightarrow> al_initial_opponent_utility (al_init d) = None \<and> \<not> list_ex is_offer acts"
    by simp_all
  have none: "al_initial_opponent_utility (al_init d) = None" by (simp add: al_init_def)
  have pos: "0 < u" if "al_initial_opponent_utility s = Some u" for u
    using s(2) that by (cases "al_opponent_model s") (auto simp: al_inv_def)
  show ?thesis
    using s(1) s(3) none pos threshold_returns[OF s(2)] score_returns[OF s(2)]
    by (intro exI[of _ s]) simp
qed

theorem C10_initial_opponent_utility_positive_witness:
  "\<exists>s u. al_run (al_init domain_AB) [Offer bid_low_x] = Inr s
        \<and> al_initial_opponent_utility s = Some u \<and> 0 < u
        \<and> (\<exists>th. compute_acceptance_threshold s (1 / 2) = Inr th)"
proof -
  have va: "list_all (valid_action domain_AB) [Offer bid_low_x]"
    using bids_AB_valid(1) by (simp add: valid_action_def)
  have off: "list_ex is_offer [Offer bid_low_x]" by (simp add: is_offer_def)
  from C10_initial_opponent_utility_positive[OF domain_AB_valid va] off
  show ?thesis by (metis option.exhaust)
qed

subsection \<open>Adaptive learner: the acceptance threshold\<close>

lemma al_action_reservation:
  "al_opponent_action s a = Inr s' \<Longrightarrow> al_reservation_value s' = al_reservation_value s"
  by (auto simp: al_opponent_action_def Let_def split: action.splits option.splits sum.splits)

lemma al_run_reservation:
  "al_run s acts = Inr s' \<Longrightarrow> al_reservation_value s' = al_reservation_value s"
proof (induction acts arbitrary: s)
  case Nil
  then show ?case by simp
next
  case (Cons a acts)
  then obtain s1 where s1: "al_opponent_action s a = Inr s1" "al_run s1 acts = Inr s'"
    by (auto split: sum.splits)
  show ?case using Cons.IH[OF s1(2)] al_action_reservation[OF s1(1)] by simp
qed

text \<open>
  C3. In every state \<open>s\<close> the adaptive learner reaches, the reservation value is 0.65 and
  \<open>compute_acceptance_threshold(t)\<close> returns
  \<open>max(0.65, 0.95 - (0.95 - 0.70) \<sqdot> t - 0.10 \<sqdot> clamp(concession, 0, 1))\<close>, where the concession is
  the relative drop of the opponent's predicted utility from its first offer to its last; before
  the first offer there is no concession term. Whatever it returns is at least the
  reservation value, for every \<open>t\<close> and every concession.
\<close>

theorem C3_acceptance_threshold:
  assumes "al_run (al_init d) acts = Inr s"
  shows "al_reservation_value s = 0.65
       \<and> (al_initial_opponent_utility s = None \<or> al_last_received_bid s = None
            \<longrightarrow> compute_acceptance_threshold s t = Inr (max 0.65 (0.95 - (0.95 - 0.70) * t)))
       \<and> (al_initial_opponent_utility s = Some u0 \<and> al_last_received_bid s = Some b
            \<and> al_opponent_model s = Some m \<and> fb_get_predicted_utility m (Some b) = Inr cur
            \<and> u0 \<noteq> 0
            \<longrightarrow> compute_acceptance_threshold s t
                  = Inr (max 0.65 (0.95 - (0.95 - 0.70) * t
                                     - 0.10 * max 0 (min ((u0 - cur) / u0) 1))))
       \<and> (compute_acceptance_threshold s t = Inr th \<longrightarrow> 0.65 \<le> th)"
proof -
  have res: "al_reservation_value s = 0.65"
    using al_run_reservation[OF assms] by (simp add: al_init_def)
  have a: "compute_acceptance_threshold s t = Inr (max 0.65 (0.95 - (0.95 - 0.70) * t))"
    if "al_initial_opponent_utility s = None \<or> al_last_received_bid s = None"
    using that by (auto simp: compute_acceptance_threshold_def Let_def res max.commute
        split: option.splits)
  have b: "compute_acceptance_threshold s t
      = Inr (max 0.65 (0.95 - (0.95 - 0.70) * t - 0.10 * max 0 (min ((u0 - cur) / u0) 1)))"
    if "al_initial_opponent_utility s = Some u0" "al_last_received_bid s = Some b"
      "al_opponent_model s = Some m" "fb_get_predicted_utility m (Some b) = Inr cur" "u0 \<noteq> 0"
    using that by (simp add: compute_acceptance_threshold_def Let_def res max.commute mult.commute)
  have c: "0.65 \<le> th" if "compute_acceptance_threshold s t = Inr th"
    using that
    by (auto simp: compute_acceptance_threshold_def Let_def res
        split: option.splits sum.splits if_splits)
  show ?thesis using res a b c by blast
qed

theorem C3_acceptance_threshold_witness:
  "\<exists>s th. al_run (al_init domain_AB) [Offer bid_low_x] = Inr s
         \<and> compute_acceptance_threshold s (1 / 2) = Inr th \<and> 0.65 \<le> th"
proof -
  have va: "list_all (valid_action domain_AB) [Offer bid_low_x]"
    using bids_AB_valid(1) by (simp add: valid_action_def)
  obtain s where s: "al_run (al_init domain_AB) [Offer bid_low_x] = Inr s \<and> al_inv domain_AB s
      \<and> (al_initial_opponent_utility s = None
         \<longleftrightarrow> al_initial_opponent_utility (al_init domain_AB) = None
             \<and> \<not> list_ex is_offer [Offer bid_low_x])"
    using al_run_inv[OF domain_AB_valid al_inv_init va] by (rule exE)
  obtain th where th: "compute_acceptance_threshold s (1 / 2) = Inr th"
    using threshold_returns[of domain_AB s "1 / 2"] s by blast
  have "0.65 \<le> th"
    using C3_acceptance_threshold[of domain_AB "[Offer bid_low_x]" s "1 / 2" _ _ _ _ th] s th
    by blast
  then show ?thesis using s th by blast
qed

subsection \<open>Construction over a continuous issue\<close>

lemma fb_build_not_discrete:
  "\<not> discrete_domain d \<Longrightarrow> fb_build_estimators d = Inl TypeError"
proof (induction d)
  case Nil
  then show ?case by (simp add: discrete_domain_def)
next
  case (Cons a d)
  obtain i vs where a: "a = (i, vs)" by (cases a)
  show ?case
  proof (cases vs)
    case (DiscreteValueSet vals)
    then have "\<not> discrete_domain d" using Cons.prems by (simp add: discrete_domain_def a isDiscrete_def)
    then show ?thesis using Cons.IH by (simp add: a DiscreteValueSet BayesianIssueEstimator_init_def)
  next
    case (NumberValueSet lo hi st)
    then show ?thesis by (simp add: a BayesianIssueEstimator_init_def)
  qed
qed

lemma rd_build_not_discrete:
  "\<not> discrete_domain d \<Longrightarrow> rd_build_estimators d = Inl TypeError"
proof (induction d)
  case Nil
  then show ?case by (simp add: discrete_domain_def)
next
  case (Cons a d)
  obtain i vs where a: "a = (i, vs)" by (cases a)
  show ?case
  proof (cases vs)
    case (DiscreteValueSet vals)
    then have "\<not> discrete_domain d" using Cons.prems by (simp add: discrete_domain_def a isDiscrete_def)
    then show ?thesis using Cons.IH by (simp add: a DiscreteValueSet IssueEstimator_init_def)
  next
    case (NumberValueSet lo hi st)
    then show ?thesis by (simp add: a IssueEstimator_init_def)
  qed
qed

lemma kde_build_issues:
  "map fst (kde_build_info d0 d) = map fst (filter (\<lambda>(i, vs). isDiscrete vs) d)"
proof (induction d)
  case Nil
  then show ?case by simp
next
  case (Cons a d)
  obtain i vs where a: "a = (i, vs)" by (cases a)
  show ?case using Cons.IH by (cases vs) (simp_all add: a isDiscrete_def)
qed

text \<open>
  C9, as the specification states it for every discrete-only variant, fails: the
  Density-Estimation model of the strategic conceder is built without error over a domain whose
  only issue is continuous; it skips the issue and holds no estimator for it.
\<close>

theorem C9_density_estimation_counterexample:
  "\<not> discrete_domain domain_price
   \<and> \<not> isl (kde_OpponentModel_init domain_price)
   \<and> kde_issue_info (projr (kde_OpponentModel_init domain_price)) = []"
  by (simp add: discrete_domain_def domain_price_def isDiscrete_def kde_OpponentModel_init_def)

text \<open>
  C9, amended. The Bayesian issue estimator and the Rank-Distance issue estimator fail with
  \<open>TypeError\<close> (the code's error for an unsupported issue type) on a value set that is not
  discrete, and so do the Frequency-Bayesian and the Rank-Distance opponent model over a domain
  with such an issue. The Density-Estimation opponent model never fails at construction: it
  keeps an estimator for the discrete issues and skips the others.
\<close>

theorem C9_unsupported_issue_type:
  "(\<not> isDiscrete vs \<longrightarrow>
       BayesianIssueEstimator_init vs = Inl TypeError \<and> IssueEstimator_init vs = Inl TypeError)
   \<and> (\<not> discrete_domain d \<longrightarrow>
       fb_OpponentModel_init d = Inl TypeError \<and> rd_OpponentModel_init d = Inl TypeError)
   \<and> (\<exists>k. kde_OpponentModel_init d = Inr k
          \<and> map fst (kde_issue_info k) = map fst (filter (\<lambda>(i, x). isDiscrete x) d))"
proof -
  have 1: "BayesianIssueEstimator_init vs = Inl TypeError \<and> IssueEstimator_init vs = Inl TypeError"
    if "\<not> isDiscrete vs"
    using that by (cases vs) (simp_all add: isDiscrete_def BayesianIssueEstimator_init_def
        IssueEstimator_init_def)
  have 2: "fb_OpponentModel_init d = Inl TypeError \<and> rd_OpponentModel_init d = Inl TypeError"
    if "\<not> discrete_domain d"
    using fb_build_not_discrete[OF that] rd_build_not_discrete[OF that]
    by (simp add: fb_OpponentModel_init_def rd_OpponentModel_init_def)
  have 3: "\<exists>k. kde_OpponentModel_init d = Inr k
          \<and> map fst (kde_issue_info k) = map fst (filter (\<lambda>(i, x). isDiscrete x) d)"
    by (simp add: kde_OpponentModel_init_def kde_build_issues)
  show ?thesis using 1 2 3 by blast
qed

theorem C9_unsupported_issue_type_witness:
  "BayesianIssueEstimator_init (NumberValueSet 0 10 1) = Inl TypeError
   \<and> IssueEstimator_init (NumberValueSet 0 10 1) = Inl TypeError
   \<and> fb_OpponentModel_init domain_price = Inl TypeError
   \<and> rd_OpponentModel_init domain_price = Inl TypeError"
  using C9_unsupported_issue_type[of "NumberValueSet 0 10 1" domain_price]
  by (simp add: isDiscrete_def discrete_domain_def domain_price_def)

subsection \<open>Deadline pusher: the value of a discrete issue in the time-dependent bid\<close>

lemma alpha_range:
  assumes "0 \<le> t" "t \<le> 1"
  shows "0 \<le> compute_alpha dp_init t" "compute_alpha dp_init t \<le> 1"
proof -
  have lo: "0 \<le> t powr 5" by simp
  have "t powr 5 \<le> 1 powr 5" using assms by (intro powr_mono2) simp_all
  then have hi: "t powr 5 \<le> 1" by simp
  show "0 \<le> compute_alpha dp_init t" using lo by (simp add: compute_alpha_def dp_init_def)
  show "compute_alpha dp_init t \<le> 1" using hi by (simp add: compute_alpha_def dp_init_def)
qed

lemma py_getitem_in_range:
  "0 \<le> j \<Longrightarrow> j < int (length xs) \<Longrightarrow> py_getitem xs j = Inr (xs ! nat j)"
  by (simp add: py_getitem_def Let_def)

lemma length_sort_by_utility_desc:
  "length (sort_by_utility_desc xs) = length xs"
  by (simp add: sort_by_utility_desc_def)

lemma index_in_range:
  fixes a :: real
  assumes "0 \<le> a" "a \<le> 1" "0 < k"
  shows "0 \<le> \<lfloor>a * (real k - 1)\<rfloor>" "\<lfloor>a * (real k - 1)\<rfloor> < int k"
    "py_int (a * (real k - 1)) = \<lfloor>a * (real k - 1)\<rfloor>"
proof -
  have k1: "0 \<le> real k - 1" using assms(3) by simp
  have nonneg: "0 \<le> a * (real k - 1)" using assms(1) k1 by simp
  have "a * (real k - 1) \<le> 1 * (real k - 1)" using assms(2) k1 by (intro mult_right_mono)
  then have le: "a * (real k - 1) < real k" by simp
  show "0 \<le> \<lfloor>a * (real k - 1)\<rfloor>" using nonneg by simp
  have "\<lfloor>a * (real k - 1)\<rfloor> < int k \<longleftrightarrow> a * (real k - 1) < real_of_int (int k)"
    by (rule floor_less_iff)
  then show "\<lfloor>a * (real k - 1)\<rfloor> < int k" using le by simp
  show "py_int (a * (real k - 1)) = \<lfloor>a * (real k - 1)\<rfloor>" using nonneg by (simp add: py_int_def)
qed

lemma sort_seven_items:
  "sort_by_utility_desc seven_items =
     [(DiscreteValue ''a'', 1), (DiscreteValue ''b'', 0.9), (DiscreteValue ''c'', 0.8),
      (DiscreteValue ''d'', 0.7), (DiscreteValue ''e'', 0.6), (DiscreteValue ''f'', 0.5),
      (DiscreteValue ''g'', 0.4)]"
  by (simp add: sort_by_utility_desc_def seven_items_def)

lemma alpha_zero: "compute_alpha dp_init 0 = 1 / 10"
  by (simp add: compute_alpha_def dp_init_def)

text \<open>
  C7, as the specification states it, fails: for an issue with seven values at \<open>t = 0\<close>,
  \<open>\<alpha>(0) \<sqdot> (count - 1) = 0.6\<close>; the code takes the value at position \<open>int(0.6) = 0\<close> of the
  ranking, the specification's \<open>round(0.6) = 1\<close> names the next one.
\<close>

theorem C7_discrete_index_counterexample:
  "time_value dp_init 0 (DiscreteValueSetUtilities seven_items) = Inr (DiscreteValue ''a'')
   \<and> fst (sort_by_utility_desc seven_items
            ! nat (spec_discrete_index (compute_alpha dp_init 0) (length seven_items)))
       = DiscreteValue ''b''"
proof -
  have len: "length seven_items = 7" by (simp add: seven_items_def)
  have r: "round (6 / 10 :: real) = 1" by (simp add: round_def)
  have f: "\<lfloor>6 / 10 :: real\<rfloor> = 0" by simp
  have 1: "time_value dp_init 0 (DiscreteValueSetUtilities seven_items) = Inr (DiscreteValue ''a'')"
    by (simp add: time_value_def Let_def alpha_zero length_sort_by_utility_desc len py_int_def f
        py_getitem_def sort_seven_items)
  have 2: "spec_discrete_index (compute_alpha dp_init 0) (length seven_items) = 1"
    using r by (simp add: spec_discrete_index_def alpha_zero len)
  show ?thesis using 1 by (simp add: 2 sort_seven_items)
qed

text \<open>
  C7, amended. For a discrete issue with at least one value and \<open>t\<close> in [0, 1], the value
  chosen for the time-dependent bid is the one at position \<open>int(\<alpha>(t) \<sqdot> (count - 1))\<close>, the
  product truncated (rounded down), in the list of the issue's values ranked by own utility
  descending; the position lies within the list, and the ranking is a stable descending sort
  of the issue's values.
\<close>

theorem C7_discrete_index:
  assumes "0 \<le> t" "t \<le> 1" "utils \<noteq> []"
  shows "time_value dp_init t (DiscreteValueSetUtilities utils)
           = Inr (fst (sort_by_utility_desc utils
                         ! nat \<lfloor>compute_alpha dp_init t * (real (length utils) - 1)\<rfloor>))
       \<and> nat \<lfloor>compute_alpha dp_init t * (real (length utils) - 1)\<rfloor> < length utils
       \<and> sorted (map (\<lambda>x. - snd x) (sort_by_utility_desc utils))
       \<and> mset (sort_by_utility_desc utils) = mset utils"
proof -
  let ?a = "compute_alpha dp_init t"
  let ?x = "?a * (real (length utils) - 1)"
  have len: "0 < length utils" using assms(3) by simp
  note idx = index_in_range[OF alpha_range[OF assms(1,2)] len]
  have get: "py_getitem (sort_by_utility_desc utils) \<lfloor>?x\<rfloor>
      = Inr (sort_by_utility_desc utils ! nat \<lfloor>?x\<rfloor>)"
    using idx(1,2) by (intro py_getitem_in_range) (simp_all add: length_sort_by_utility_desc)
  have 1: "time_value dp_init t (DiscreteValueSetUtilities utils)
      = Inr (fst (sort_by_utility_desc utils ! nat \<lfloor>?x\<rfloor>))"
    by (simp add: time_value_def Let_def length_sort_by_utility_desc idx(3) get)
  have 2: "nat \<lfloor>?x\<rfloor> < length utils" using idx(1,2) by linarith
  have 3: "sorted (map (\<lambda>x. - snd x) (sort_by_utility_desc utils))"
    by (simp add: sort_by_utility_desc_def)
  have 4: "mset (sort_by_utility_desc utils) = mset utils"
    by (simp add: sort_by_utility_desc_def)
  show ?thesis using 1 2 3 4 by blast
qed

theorem C7_discrete_index_witness:
  "time_value dp_init 0 (DiscreteValueSetUtilities seven_items)
     = Inr (fst (sort_by_utility_desc seven_items ! 0))"
proof -
  have ne: "seven_items \<noteq> []" by (simp add: seven_items_def)
  have len: "length seven_items = 7" by (simp add: seven_items_def)
  have f: "\<lfloor>6 / 10 :: real\<rfloor> = 0" by simp
  show ?thesis
    using C7_discrete_index[of 0 seven_items] ne
    by (simp add: alpha_zero len f)
qed

end
